theory Spec2Isabelle
  imports
    Main
    "HOL-Library.Sublist"
    "HOL-Library.Char_ord"
    "HOL-Library.List_Lexorder"
begin

chapter \<open>DMV appointment monitor: a shallow embedding of the monitoring core\<close>

text \<open>
  The development embeds \<^verbatim>\<open>monitor_service.py\<close>, \<^verbatim>\<open>database.py\<close> and the push helper
  of \<^verbatim>\<open>api.py\<close>. The browser, the push gateway, the JSON and URL parsers and the clock are
  collaborators outside the repository: what they answer is an explicit observation value
  handed to the model, and what the program does to them is an explicit list of events.
  Python exceptions are values of the datatype \<open>exn\<close>; a call that may raise returns a sum
  with the exception on the left.
\<close>

section \<open>Python strings\<close>

text \<open>
  A Python \<^verbatim>\<open>str\<close> is modelled as a \<^typ>\<open>string\<close> of bytes (UTF-8); the program only
  concatenates, compares and searches strings, which is the same on bytes.
\<close>

text \<open>\<^verbatim>\<open>needle in haystack\<close> on strings: contiguous occurrence.\<close>

fun py_in :: "string \<Rightarrow> string \<Rightarrow> bool" where
  "py_in needle [] = (needle = [])"
| "py_in needle (c # cs) = (prefix needle (c # cs) \<or> py_in needle cs)"

text \<open>\<^verbatim>\<open>sep.join(xs)\<close>.\<close>

fun py_join :: "string \<Rightarrow> string list \<Rightarrow> string" where
  "py_join sep [] = []"
| "py_join sep [x] = x"
| "py_join sep (x # y # ys) = x @ sep @ py_join sep (y # ys)"

definition digit_char :: "nat \<Rightarrow> char" where
  "digit_char d = char_of (48 + d)"

text \<open>\<^verbatim>\<open>str(n)\<close> for a non-negative integer, and for any integer.\<close>

fun str_nat :: "nat \<Rightarrow> string" where
  "str_nat n = (if n < 10 then [digit_char n] else str_nat (n div 10) @ [digit_char (n mod 10)])"

declare str_nat.simps [simp del]

definition str_int :: "int \<Rightarrow> string" where
  "str_int i = (if i < 0 then CHR ''-'' # str_nat (nat (- i)) else str_nat (nat i))"

text \<open>
  \<^verbatim>\<open>s.strip()\<close> removes the white space of \<^verbatim>\<open>str.isspace\<close> from both ends. In UTF-8 this
  white space is: one byte for the code points 9 to 13 and 28 to 32; two bytes for U+0085
  and U+00A0; three bytes for U+1680, U+2000 to U+200A, U+2028, U+2029, U+202F, U+205F
  and U+3000.
\<close>

definition is_space :: "char \<Rightarrow> bool" where
  "is_space c = (let n = (of_char c :: nat) in (9 \<le> n \<and> n \<le> 13) \<or> (28 \<le> n \<and> n \<le> 32))"

definition is_space2 :: "char \<Rightarrow> char \<Rightarrow> bool" where
  "is_space2 a b = (a = CHR 0xC2 \<and> (b = CHR 0x85 \<or> b = CHR 0xA0))"

definition is_space3 :: "char \<Rightarrow> char \<Rightarrow> char \<Rightarrow> bool" where
  "is_space3 a b c =
     ((a = CHR 0xE1 \<and> b = CHR 0x9A \<and> c = CHR 0x80) \<or>
      (a = CHR 0xE2 \<and> b = CHR 0x80 \<and>
         (let n = (of_char c :: nat)
          in (128 \<le> n \<and> n \<le> 138) \<or> n = 168 \<or> n = 169 \<or> n = 175)) \<or>
      (a = CHR 0xE2 \<and> b = CHR 0x81 \<and> c = CHR 0x9F) \<or>
      (a = CHR 0xE3 \<and> b = CHR 0x80 \<and> c = CHR 0x80))"

text \<open>White space removed from the front of a text.\<close>

fun lstrip :: "string \<Rightarrow> string" where
  "lstrip (a # b # c # s) =
     (if is_space a then lstrip (b # c # s)
      else if is_space2 a b then lstrip (c # s)
      else if is_space3 a b c then lstrip s
      else a # b # c # s)"
| "lstrip [a, b] = (if is_space a then lstrip [b] else if is_space2 a b then [] else [a, b])"
| "lstrip [a] = (if is_space a then [] else [a])"
| "lstrip [] = []"

text \<open>
  White space removed from the end of a text, on the text read backwards: the bytes of
  the last character come first, in reverse.
\<close>

fun rstrip_reversed :: "string \<Rightarrow> string" where
  "rstrip_reversed (c # b # a # s) =
     (if is_space c then rstrip_reversed (b # a # s)
      else if is_space2 b c then rstrip_reversed (a # s)
      else if is_space3 a b c then rstrip_reversed s
      else c # b # a # s)"
| "rstrip_reversed [c, b] =
     (if is_space c then rstrip_reversed [b] else if is_space2 b c then [] else [c, b])"
| "rstrip_reversed [c] = (if is_space c then [] else [c])"
| "rstrip_reversed [] = []"

definition py_strip :: "string \<Rightarrow> string" where
  "py_strip s = rev (rstrip_reversed (rev (lstrip s)))"

text \<open>The no-break space U+00A0 (\<^verbatim>\<open>&nbsp;\<close>) in UTF-8.\<close>

definition nbsp :: string where
  "nbsp = [CHR 0xC2, CHR 0xA0]"

text \<open>\<^verbatim>\<open>s.startswith(("#", ".", "["))\<close>: how \<^verbatim>\<open>safe_click\<close> tells a selector from a text.\<close>

definition is_selector :: "string \<Rightarrow> bool" where
  "is_selector s = (case s of [] \<Rightarrow> False | c # _ \<Rightarrow> c = CHR ''#'' \<or> c = CHR ''.'' \<or> c = CHR ''['')"

text \<open>A line feed, and the four pictographs of the notification texts as UTF-8 bytes.\<close>

definition newline :: string where
  "newline = [CHR 0x0A]"

definition emoji_car :: string where
  "emoji_car = [CHR 0xF0, CHR 0x9F, CHR 0x9A, CHR 0x97]"

definition emoji_clipboard :: string where
  "emoji_clipboard = [CHR 0xF0, CHR 0x9F, CHR 0x93, CHR 0x8B]"

definition emoji_pin :: string where
  "emoji_pin = [CHR 0xF0, CHR 0x9F, CHR 0x93, CHR 0x8D]"

definition emoji_calendar :: string where
  "emoji_calendar = [CHR 0xF0, CHR 0x9F, CHR 0x93, CHR 0x85]"

section \<open>Exceptions and events\<close>

text \<open>
  The two exception classes of the program, Playwright's timeout, and \<open>OtherError\<close> for any
  other \<^verbatim>\<open>Exception\<close> (a Playwright \<^verbatim>\<open>Error\<close>, a \<^verbatim>\<open>ValueError\<close>, ...).
\<close>

datatype exn = RestartRequiredException | ServerErrorException | PlaywrightTimeoutError | OtherError

text \<open>
  A locator is named by what it was built from: a selector, a visible text, or one of the
  handles the scanners pass to \<^verbatim>\<open>safe_click\<close> (a location panel, the next-month control,
  the \<open>idx\<close>-th active day cell).
\<close>

datatype locator =
    Selector string
  | ByText string
  | LocationPanel string
  | NextMonthButton
  | ActiveDay nat

datatype target = Handle locator | Str string

text \<open>What the program does to its collaborators, in the order it does it.\<close>

datatype event =
    Clicked locator
  | Screenshot
  | WentBack
  | MonthRead
  | WebPush string string string string

section \<open>Configuration\<close>

text \<open>
  The fields of class \<^verbatim>\<open>Config\<close> that the scanners, the dispatcher and the store read.
  \<open>category_map\<close> is a Python dict, kept as an association list; \<^verbatim>\<open>dict.get\<close> is
  \<^const>\<open>map_of\<close>.
\<close>

record config =
  calendar_page_text :: string
  location_page_text :: string
  category_page_text :: string
  main_page_text :: string
  max_subscription_age_hours :: int
  max_cycles_before_restart :: int
  categories :: "string list"
  category_map :: "(string \<times> string) list"
  locations :: "string list"
  months_en :: "string list"

definition Config :: config where
  "Config = \<lparr>
     calendar_page_text = ''Choose a Date'',
     location_page_text = ''Select a Location'',
     category_page_text = ''Please select an appointment type'',
     main_page_text = ''Welcome to the NCDMV Driver Service Appointment Scheduler'',
     max_subscription_age_hours = 72,
     max_cycles_before_restart = 2,
     categories = [
       ''Driver License - First Time'', ''Driver License Duplicate'', ''Driver License Renewal'',
       ''Fees'', ''ID Card'', ''Knowledge/Computer Test'', ''Legal Presence'',
       ''Motorcycle Skills Test'', ''Non-CDL Road Test'', ''Permits'', ''Teen Driver Level 1'',
       ''Teen Driver Level 2'', ''Teen Driver Level 3''],
     category_map = [
       (''Driver License - First Time'', ''driver_license_first_time''),
       (''Driver License Duplicate'', ''driver_license_duplicate''),
       (''Driver License Renewal'', ''driver_license_renewal''),
       (''Fees'', ''fees''),
       (''ID Card'', ''id_card''),
       (''Knowledge/Computer Test'', ''knowledge_computer_test''),
       (''Legal Presence'', ''legal_presence''),
       (''Motorcycle Skills Test'', ''motorcycle_skills_test''),
       (''Non-CDL Road Test'', ''non_cdl_road_test''),
       (''Permits'', ''permits''),
       (''Teen Driver Level 1'', ''teen_driver_level_1''),
       (''Teen Driver Level 2'', ''teen_driver_level_2''),
       (''Teen Driver Level 3'', ''teen_driver_level_3'')],
     locations = [
       ''Aberdeen'', ''Ahoskie'', ''Albemarle'', ''Andrews'', ''Asheboro'', ''Asheville'',
       ''Boone'', ''Brevard'', ''Bryson City'', ''Burgaw'', ''Burnsville'', ''Carrboro'',
       ''Cary'', ''Charlotte East'', ''Charlotte North'', ''Charlotte South'',
       ''Charlotte West'', ''Clayton'', ''Clinton'', ''Clyde'', ''Concord'', ''Durham East'',
       ''Durham South'', ''Elizabeth City'', ''Elizabethtown'', ''Elkin'', ''Erwin'',
       ''Fayetteville South'', ''Fayetteville West'', ''Forest City'', ''Franklin'',
       ''Fuquay-Varina'', ''Garner'', ''Gastonia'', ''Goldsboro'', ''Graham'',
       ''Greensboro East'', ''Greensboro West'', ''Greenville'', ''Hamlet'', ''Havelock'',
       ''Henderson'', ''Hendersonville'', ''Hickory'', ''High Point'', ''Hillsborough'',
       ''Hudson'', ''Huntersville'', ''Jacksonville'', ''Jefferson'', ''Kernersville'',
       ''Kinston'', ''Lexington'', ''Lincolnton'', ''Louisburg'', ''Lumberton'', ''Marion'',
       ''Marshall'', ''Mocksville'', ''Monroe'', ''Mooresville'', ''Morehead City'',
       ''Morganton'', ''Mount Airy'', ''Mount Holly'', ''Nags Head'', ''New Bern'',
       ''Newton'', ''Oxford'', ''Polkton'', ''Raleigh North'', ''Raleigh West'',
       ''Roanoke Rapids'', ''Rocky Mount'', ''Roxboro'', ''Salisbury'', ''Sanford'',
       ''Shallotte'', ''Shelby'', ''Siler City'', ''Smithfield'', ''Statesville'',
       ''Stedman'', ''Sylva'', ''Tarboro'', ''Taylorsville'', ''Thomasville'', ''Troy'',
       ''Washington'', ''Wendell'', ''Wentworth'', ''Whiteville'', ''Wilkesboro'',
       ''Williamston'', ''Wilmington North'', ''Wilmington South'', ''Wilson'',
       ''Winston Salem North'', ''Winston Salem South'', ''Yadkinville''],
     months_en = [
       ''January'', ''February'', ''March'', ''April'', ''May'', ''June'',
       ''July'', ''August'', ''September'', ''October'', ''November'', ''December'']
   \<rparr>"

section \<open>Push delivery\<close>

text \<open>
  The collaborators of \<^verbatim>\<open>send_push\<close>: \<open>json_endpoint s\<close> is
  \<^verbatim>\<open>json.loads(s).get("endpoint", "")\<close>, or \<open>None\<close> when parsing or the lookup raises;
  \<open>urlparse e\<close> is the scheme and the netloc of \<^verbatim>\<open>urllib.parse.urlparse(e)\<close>;
  \<open>webpush s title body aud\<close> tells whether \<^verbatim>\<open>pywebpush.webpush\<close> returned (rather than raised)
  for descriptor \<open>s\<close>, the given title and body, and audience claim \<open>aud\<close>.
\<close>

record push_env =
  json_endpoint :: "string \<Rightarrow> string option"
  urlparse :: "string \<Rightarrow> string \<times> string"
  webpush :: "string \<Rightarrow> string \<Rightarrow> string \<Rightarrow> string \<Rightarrow> bool"

text \<open>The audience chain of \<^verbatim>\<open>PushNotificationService.send_push\<close> (lines 229 to 237).\<close>

definition send_push_aud :: "push_env \<Rightarrow> string \<Rightarrow> string" where
  "send_push_aud env endpoint =
     (if py_in ''apple.com'' endpoint then ''https://web.push.apple.com''
      else if py_in ''fcm.googleapis.com'' endpoint then ''https://fcm.googleapis.com''
      else if py_in ''mozilla.com'' endpoint then ''https://updates.push.services.mozilla.com''
      else (let parsed = urlparse env endpoint in fst parsed @ ''://'' @ snd parsed))"

text \<open>
  \<^verbatim>\<open>PushNotificationService.send_push\<close>: the value returned and the call made to the push
  gateway, if any. Every exception is caught and turned into \<open>False\<close>.
\<close>

definition send_push :: "push_env \<Rightarrow> string \<Rightarrow> string \<Rightarrow> string \<Rightarrow> bool \<times> event list" where
  "send_push env subscription_json title body =
     (case json_endpoint env subscription_json of
        None \<Rightarrow> (False, [])
      | Some endpoint \<Rightarrow>
          if endpoint = [] then (False, [])
          else (let aud = send_push_aud env endpoint
                in (webpush env subscription_json title body aud,
                    [WebPush subscription_json title body aud])))"


section \<open>The store (\<^verbatim>\<open>database.py\<close>)\<close>

text \<open>
  A row of table \<^verbatim>\<open>subscriptions\<close> as \<^verbatim>\<open>get_all_subscriptions\<close> returns it. The keys
  \<^verbatim>\<open>categories\<close> and \<^verbatim>\<open>locations\<close> are called \<open>sub_categories\<close> and \<open>sub_locations\<close>
  here, apart from the fields of \<^typ>\<open>config\<close>. \<open>created_at\<close> is the ISO text the
  table stores; \<open>last_notification_sent\<close> is a nullable text column.
\<close>

record subscription =
  user_id :: string
  push_subscription :: string
  sub_categories :: "string list"
  sub_locations :: "string list"
  date_range_days :: int
  created_at :: string
  last_notification_sent :: "string option"

text \<open>A row of table \<^verbatim>\<open>last_check\<close>; column \<^verbatim>\<open>id\<close> is \<open>row_id\<close>.\<close>

record last_check_row =
  row_id :: int
  category :: string
  location_name :: string
  has_slots :: int
  last_checked :: string

record database =
  subscriptions :: "subscription list"
  last_check :: "last_check_row list"

text \<open>The element \<^verbatim>\<open>{"location": ..., "slots": ...}\<close> of \<^verbatim>\<open>slots_data\<close>.\<close>

record slot_summary =
  location :: string
  slots :: int

text \<open>An SQLite integer primary key: one more than the largest in the table.\<close>

definition next_row_id :: "last_check_row list \<Rightarrow> int" where
  "next_row_id tbl = foldr max (map row_id tbl) 0 + 1"

text \<open>
  \<^verbatim>\<open>INSERT INTO last_check ... ON CONFLICT(category, location_name) DO UPDATE SET
  has_slots = excluded.has_slots, last_checked = excluded.last_checked\<close>.
\<close>

definition upsert_last_check ::
  "string \<Rightarrow> string \<Rightarrow> int \<Rightarrow> string \<Rightarrow> last_check_row list \<Rightarrow> last_check_row list" where
  "upsert_last_check cat loc n ts tbl =
     (if (cat, loc) \<in> set (map (\<lambda>r. (category r, location_name r)) tbl)
      then map (\<lambda>r. if category r = cat \<and> location_name r = loc
                     then r\<lparr>has_slots := n, last_checked := ts\<rparr> else r) tbl
      else tbl @ [\<lparr>row_id = next_row_id tbl, category = cat, location_name = loc,
                   has_slots = n, last_checked = ts\<rparr>])"

text \<open>
  \<^verbatim>\<open>Database.save_slots_info\<close>, with \<open>timestamp\<close> the value of
  \<^verbatim>\<open>datetime.now().isoformat()\<close>: first every location of the list is set to zero, then
  every element of \<open>slots_data\<close> is written, each loop in list order.
\<close>

definition db_save_slots_info ::
  "string \<Rightarrow> string list \<Rightarrow> slot_summary list \<Rightarrow> string \<Rightarrow> last_check_row list \<Rightarrow> last_check_row list" where
  "db_save_slots_info cat locs slots_data timestamp tbl =
     (let zeroed = foldl (\<lambda>t loc. upsert_last_check cat loc 0 timestamp t) tbl locs
      in foldl (\<lambda>t slot. upsert_last_check cat (location slot) (slots slot) timestamp t)
           zeroed slots_data)"

text \<open>
  \<^verbatim>\<open>DataStorage.save_slots_info\<close>: the label is mapped to its key, with the label itself as
  the fallback of \<^verbatim>\<open>dict.get\<close>.
\<close>

definition save_slots_info ::
  "config \<Rightarrow> string \<Rightarrow> slot_summary list \<Rightarrow> string \<Rightarrow> database \<Rightarrow> database" where
  "save_slots_info cfg cat slots_data timestamp db =
     (let category_key = (case map_of (category_map cfg) cat of None \<Rightarrow> cat | Some k \<Rightarrow> k)
      in db\<lparr>last_check :=
              db_save_slots_info category_key (locations cfg) slots_data timestamp (last_check db)\<rparr>)"

text \<open>\<^verbatim>\<open>SubscriptionManager.load_subscriptions\<close>.\<close>

definition load_subscriptions :: "database \<Rightarrow> subscription list" where
  "load_subscriptions db = subscriptions db"

section \<open>Python dicts in insertion order\<close>

text \<open>
  A dict is an association list with distinct keys, in insertion order: assigning to a key
  that is present keeps its place, a new key goes to the end.
\<close>

type_synonym slot_dict = "(string \<times> string list) list"

fun dict_set :: "('k \<times> 'v) list \<Rightarrow> 'k \<Rightarrow> 'v \<Rightarrow> ('k \<times> 'v) list" where
  "dict_set [] k v = [(k, v)]"
| "dict_set ((k', v') # d) k v = (if k' = k then (k, v) # d else (k', v') # dict_set d k v)"

definition dict_update :: "('k \<times> 'v) list \<Rightarrow> ('k \<times> 'v) list \<Rightarrow> ('k \<times> 'v) list" where
  "dict_update d other = foldl (\<lambda>acc kv. dict_set acc (fst kv) (snd kv)) d other"

text \<open>\<^verbatim>\<open>sum(len(times) for times in total_slots.values())\<close>.\<close>

definition count_slots :: "slot_dict \<Rightarrow> int" where
  "count_slots total_slots = int (sum_list (map (\<lambda>kv. length (snd kv)) total_slots))"

section \<open>The dispatcher (\<^verbatim>\<open>NotificationManager.send_notification\<close>)\<close>

text \<open>The selection loop, lines 294 to 310.\<close>

definition interested_subscriptions ::
  "string \<Rightarrow> string \<Rightarrow> subscription list \<Rightarrow> subscription list" where
  "interested_subscriptions mapped_category loc subs =
     foldl (\<lambda>interested item.
              if push_subscription item = [] then interested
              else if mapped_category \<in> set (sub_categories item) \<and> loc \<in> set (sub_locations item)
                   then interested @ [item]
                   else interested)
       [] subs"

text \<open>The body of the loop over \<^verbatim>\<open>total_slots.items()\<close>, lines 318 to 321.\<close>

definition slot_line :: "string \<times> string list \<Rightarrow> string" where
  "slot_line item =
     (let date_key = fst item; times = snd item;
          times_str = py_join '', '' (take 2 times);
          times_str = (if length times > 2
                       then times_str @ '' (+'' @ str_nat (length times - 2) @ '' more)''
                       else times_str)
      in date_key @ '': '' @ times_str)"

definition notification_title :: string where
  "notification_title = emoji_car @ '' New DMV appointment available!''"

definition notification_body :: "string \<Rightarrow> string \<Rightarrow> slot_dict \<Rightarrow> string" where
  "notification_body cat loc total_slots =
     (let slots_lines = foldl (\<lambda>ls item. ls @ [slot_line item]) [] total_slots;
          display_lines = take 3 slots_lines;
          more_dates_suffix =
            (if length slots_lines > 3
             then newline @ ''(+'' @ str_nat (length slots_lines - 3) @ '' more dates)''
             else [])
      in emoji_clipboard @ '' '' @ cat @ newline @
         emoji_pin @ '' '' @ loc @ newline @
         emoji_calendar @ '' Available slots:'' @ newline @
         py_join newline display_lines @ more_dates_suffix)"

text \<open>The sending loop, lines 337 to 358: the count of successful sends and the gateway calls.\<close>

fun send_to_all :: "push_env \<Rightarrow> string \<Rightarrow> string \<Rightarrow> subscription list \<Rightarrow> int \<times> event list" where
  "send_to_all env title body [] = (0, [])"
| "send_to_all env title body (sub # rest) =
     (let (ok, evs) = send_push env (push_subscription sub) title body;
          (sent_count, evs') = send_to_all env title body rest
      in ((if ok then 1 else 0) + sent_count, evs @ evs'))"

definition send_notification ::
  "config \<Rightarrow> push_env \<Rightarrow> database \<Rightarrow> string \<Rightarrow> string \<Rightarrow> slot_dict \<Rightarrow> int \<times> event list" where
  "send_notification cfg env db cat loc total_slots =
     (if total_slots = [] then (0, [])
      else let subs = load_subscriptions db in
        if subs = [] then (0, [])
        else case map_of (category_map cfg) cat of
          None \<Rightarrow> (0, [])
        | Some mapped_category \<Rightarrow>
            if mapped_category = [] then (0, [])
            else let interested = interested_subscriptions mapped_category loc subs in
              if interested = [] then (0, [])
              else send_to_all env notification_title
                     (notification_body cat loc total_slots) interested)"


section \<open>Page primitives (\<^verbatim>\<open>ScreenshotManager\<close>, \<^verbatim>\<open>PageNavigator\<close>)\<close>

text \<open>
  A computation on the page returns a value or raises, and leaves the events it caused.
  \<open>and_then\<close> is sequential composition: an exception ends the sequence, the events of
  both parts are kept in order.
\<close>

type_synonym 'a action = "(exn + 'a) \<times> event list"

definition and_then :: "'a action \<Rightarrow> ('a \<Rightarrow> 'b action) \<Rightarrow> 'b action" where
  "and_then m f =
     (case m of
        (Inl e, evs) \<Rightarrow> (Inl e, evs)
      | (Inr a, evs) \<Rightarrow> (case f a of (r, evs') \<Rightarrow> (r, evs @ evs')))"

text \<open>
  \<^verbatim>\<open>take_screenshot\<close> never raises: it catches every exception of its own. The event
  records that a screenshot was requested, whatever the switch or the page state.
\<close>

definition take_screenshot :: "unit action" where
  "take_screenshot = (Inr (), [Screenshot])"

text \<open>
  \<^verbatim>\<open>wait_for_spinner\<close>. Each of the two waits ends normally (\<open>None\<close>) or raises. A timeout
  of the first wait means the indicator never appeared, which is not an error.
\<close>

record spinner_obs =
  spinner_appears :: "exn option"
  spinner_disappears :: "exn option"

definition wait_for_spinner :: "spinner_obs \<Rightarrow> unit action" where
  "wait_for_spinner obs =
     (case spinner_appears obs of
        Some PlaywrightTimeoutError \<Rightarrow> (Inr (), [])
      | Some e \<Rightarrow> (Inl e, [])
      | None \<Rightarrow>
          (case spinner_disappears obs of
             Some e \<Rightarrow> (Inl e, [])
           | None \<Rightarrow> (Inr (), [])))"

text \<open>
  What the page answers during one attempt of \<^verbatim>\<open>safe_click\<close>: the visibility test of the
  expected locator (which may raise), whether the target became visible, whether
  \<^verbatim>\<open>click\<close> returned, whether the expected locator appeared afterwards, and the content
  read by the handler (\<open>None\<close> when \<^verbatim>\<open>page.content()\<close> raises). A \<^verbatim>\<open>click\<close> that raises
  has clicked nothing.
\<close>

datatype visibility = Visible | NotVisible | VisibilityError

record attempt_obs =
  expected_visible :: visibility
  target_visible :: bool
  click_returns :: bool
  expected_appears :: bool
  page_content :: "string option"

fun click_locator :: "target \<Rightarrow> locator" where
  "click_locator (Handle l) = l"
| "click_locator (Str s) = (if is_selector s then Selector s else ByText s)"

definition expected_locator :: "string option \<Rightarrow> locator option" where
  "expected_locator expected_text =
     (case expected_text of
        None \<Rightarrow> None
      | Some s \<Rightarrow> Some (if is_selector s then Selector s else ByText s))"

definition error_banner :: string where
  "error_banner = ''Unfortunately, we have encountered an error''"

text \<open>
  The \<^verbatim>\<open>try\<close> block of one attempt (lines 444 to 458): \<open>True\<close> when it returns
  \<^verbatim>\<open>True\<close>, \<open>False\<close> when it raises, with the click it performed.
\<close>

definition attempt_body :: "locator \<Rightarrow> locator option \<Rightarrow> attempt_obs \<Rightarrow> bool \<times> event list" where
  "attempt_body clk expected obs =
     (if expected \<noteq> None \<and> expected_visible obs = Visible then (True, [])
      else if expected \<noteq> None \<and> expected_visible obs = VisibilityError then (False, [])
      else if \<not> target_visible obs then (False, [])
      else if \<not> click_returns obs then (False, [])
      else if expected \<noteq> None \<and> \<not> expected_appears obs then (False, [Clicked clk])
      else (True, [Clicked clk]))"

text \<open>The handler's test for the error page of the site (lines 461 to 466).\<close>

definition banner_detected :: "attempt_obs \<Rightarrow> bool" where
  "banner_detected obs =
     (let content = (case page_content obs of None \<Rightarrow> [] | Some c \<Rightarrow> c)
      in py_in error_banner content)"

text \<open>
  The loop \<^verbatim>\<open>for attempt in range(max_attempts)\<close> over the attempts still to run; the
  \<^verbatim>\<open>return False\<close> after the loop is the empty case.
\<close>

fun safe_click_loop ::
  "locator \<Rightarrow> locator option \<Rightarrow> int \<Rightarrow> (nat \<Rightarrow> attempt_obs) \<Rightarrow> nat list \<Rightarrow> bool action" where
  "safe_click_loop clk expected max_attempts page [] = (Inr False, [])"
| "safe_click_loop clk expected max_attempts page (attempt # rest) =
     (case attempt_body clk expected (page attempt) of
        (True, evs) \<Rightarrow> (Inr True, evs)
      | (False, evs) \<Rightarrow>
          if banner_detected (page attempt) then (Inl ServerErrorException, evs)
          else if int attempt = max_attempts - 1
               then (Inl RestartRequiredException, evs @ [Screenshot])
               else (case safe_click_loop clk expected max_attempts page rest of
                       (r, evs') \<Rightarrow> (r, evs @ evs')))"

definition safe_click ::
  "target \<Rightarrow> string option \<Rightarrow> int \<Rightarrow> (nat \<Rightarrow> attempt_obs) \<Rightarrow> bool action" where
  "safe_click tgt expected_text max_attempts page =
     safe_click_loop (click_locator tgt) (expected_locator expected_text) max_attempts page
       [0..<nat max_attempts]"

text \<open>
  \<^verbatim>\<open>go_back\<close>: the observation is what \<^verbatim>\<open>page.go_back()\<close> followed by the wait for the
  expected text raised, if anything. Only a timeout becomes
  \<^verbatim>\<open>RestartRequiredException\<close>; any other exception leaves as it is.
\<close>

definition go_back :: "exn option \<Rightarrow> unit action" where
  "go_back obs =
     (case obs of
        None \<Rightarrow> (Inr (), [WentBack])
      | Some PlaywrightTimeoutError \<Rightarrow> (Inl RestartRequiredException, [WentBack])
      | Some e \<Rightarrow> (Inl e, [WentBack]))"

section \<open>Slot extraction (\<^verbatim>\<open>SlotChecker\<close>)\<close>

text \<open>
  What the calendar shows for one active day cell: the day number read from the cell (or
  the exception raised by reading or converting it), the page during the click on the
  cell, the loading indicator after it, and the texts of the options of the time list (or
  the exception raised by reading them).
\<close>

record day_obs =
  day_number :: "exn + int"
  day_click :: "nat \<Rightarrow> attempt_obs"
  day_spinner :: spinner_obs
  option_texts :: "exn + string list"

text \<open>
  One displayed month: the texts of the month and year headers (\<open>None\<close> when reading them
  raises), the month and the year of the clock in the zone of the site, used when the
  headers cannot be read, and the active day cells in page order.
\<close>

record month_obs =
  month_header :: "(string \<times> string) option"
  now_month :: nat
  now_year :: int
  active_days :: "day_obs list"

text \<open>The loop over the active day cells (lines 560 to 589), from cell \<open>idx\<close> on.\<close>

fun check_days :: "string \<Rightarrow> string \<Rightarrow> nat \<Rightarrow> day_obs list \<Rightarrow> slot_dict \<Rightarrow> slot_dict action" where
  "check_days month_text year_text idx [] month_time_slots = (Inr month_time_slots, [])"
| "check_days month_text year_text idx (cell # cells) month_time_slots =
     (case day_number cell of
        Inl e \<Rightarrow> (Inl e, [])
      | Inr day \<Rightarrow>
          and_then (safe_click (Handle (ActiveDay idx)) None 3 (day_click cell)) (\<lambda>_.
          and_then (wait_for_spinner (day_spinner cell)) (\<lambda>_.
            (case option_texts cell of
               Inl e \<Rightarrow> (Inl e, [])
             | Inr texts \<Rightarrow>
                 (let times = filter (\<lambda>t. t \<noteq> [] \<and> t \<noteq> ''-'') (map py_strip texts);
                      date_key = month_text @ '' '' @ str_int day @ '', '' @ year_text
                  in check_days month_text year_text (Suc idx) cells
                       (if times = [] then month_time_slots
                        else dict_set month_time_slots date_key times))))))"

text \<open>
  \<^verbatim>\<open>_check_month_slots\<close>. The clock gives a month from 1 to 12, so the index into
  \<open>months_en\<close> is in range. Event \<open>MonthRead\<close> marks that a displayed month is read.
\<close>

definition check_month_slots :: "config \<Rightarrow> month_obs \<Rightarrow> slot_dict action" where
  "check_month_slots cfg obs =
     (let (month_text, year_text) =
            (case month_header obs of
               Some (m, y) \<Rightarrow> (py_strip m, py_strip y)
             | None \<Rightarrow> (months_en cfg ! (now_month obs - 1), str_int (now_year obs)))
      in and_then (Inr (), [MonthRead]) (\<lambda>_.
           check_days month_text year_text 0 (active_days obs) []))"

text \<open>
  What \<^verbatim>\<open>check_slots\<close> meets at one location: the indicator on entry, the number of
  enabled next-month controls, the displayed month, and, for the step to the next month,
  the page during the click, the indicator and the month shown afterwards.
\<close>

record slots_obs =
  first_spinner :: spinner_obs
  next_button_count :: nat
  current_month :: month_obs
  next_click :: "nat \<Rightarrow> attempt_obs"
  next_spinner :: spinner_obs
  next_month :: month_obs

definition check_slots :: "config \<Rightarrow> slots_obs \<Rightarrow> slot_dict action" where
  "check_slots cfg obs =
     and_then (wait_for_spinner (first_spinner obs)) (\<lambda>_.
       (let next_button_is_available = next_button_count obs > 0
        in and_then (check_month_slots cfg (current_month obs)) (\<lambda>slots_current_month.
             (let total_time_slots = dict_update [] slots_current_month
              in if next_button_is_available
                 then and_then (safe_click (Handle NextMonthButton) None 3 (next_click obs)) (\<lambda>_.
                      and_then (wait_for_spinner (next_spinner obs)) (\<lambda>_.
                      and_then (check_month_slots cfg (next_month obs)) (\<lambda>slots_next_month.
                        (Inr (dict_update total_time_slots slots_next_month), []))))
                 else (Inr total_time_slots, [])))))"

section \<open>Scanning the locations of a category (\<^verbatim>\<open>LocationChecker\<close>)\<close>

text \<open>
  What the page shows at one iteration of the loop over the configured locations: the
  texts of the active panels (the elements \<^verbatim>\<open>.QflowObjectItem.Active-Unit\<close>, each the panel
  of one office), the text filter of the browser (\<open>has_text text s\<close> tells whether an
  element with this text passes \<^verbatim>\<open>has_text=s\<close>), the page during the click on the first
  panel that passes, the calendar behind that panel, and what the way back raised, if
  anything.
\<close>

record location_obs =
  active_panels :: "string list"
  has_text :: "string \<Rightarrow> string \<Rightarrow> bool"
  enter_click :: "nat \<Rightarrow> attempt_obs"
  calendar :: slots_obs
  back_raises :: "exn option"

text \<open>
  \<^verbatim>\<open>loc.count()\<close> for \<^verbatim>\<open>loc = page.locator(".QflowObjectItem.Active-Unit",
  has_text=location).first\<close> (lines 615 to 617): one when some active panel passes the
  filter for the name of the location, zero otherwise.
\<close>

definition panel_count :: "location_obs \<Rightarrow> string \<Rightarrow> nat" where
  "panel_count obs loc =
     (if filter (\<lambda>text. has_text obs text loc) (active_panels obs) = [] then 0 else 1)"

text \<open>
  The inner \<^verbatim>\<open>try\<close> with its two handlers (lines 625 to 635): the slots found, or the
  empty dict after an exception; any exception but \<^verbatim>\<open>ServerErrorException\<close> also asks
  for a screenshot.
\<close>

definition enter_location :: "config \<Rightarrow> string \<Rightarrow> location_obs \<Rightarrow> slot_dict \<times> event list" where
  "enter_location cfg loc obs =
     (case and_then
             (safe_click (Handle (LocationPanel loc)) (Some (calendar_page_text cfg)) 3
                (enter_click obs))
             (\<lambda>_. check_slots cfg (calendar obs)) of
        (Inr total_slots, evs) \<Rightarrow> (total_slots, evs)
      | (Inl ServerErrorException, evs) \<Rightarrow> ([], evs)
      | (Inl e, evs) \<Rightarrow> ([], evs @ snd take_screenshot))"

text \<open>
  The outer \<^verbatim>\<open>try ... finally\<close> (lines 624 to 644) for a location that is on the page:
  the new \<open>slots_data\<close>, or the exception of \<^verbatim>\<open>go_back\<close>.
\<close>

definition visit_location ::
  "config \<Rightarrow> push_env \<Rightarrow> database \<Rightarrow> string \<Rightarrow> string \<Rightarrow> location_obs \<Rightarrow>
   slot_summary list \<Rightarrow> slot_summary list action" where
  "visit_location cfg env db cat loc obs slots_data =
     (let (total_slots, evs) = enter_location cfg loc obs;
          total_slots_nums = count_slots total_slots;
          (sent, push_evs) = send_notification cfg env db cat loc total_slots;
          slots_data' = slots_data @ [\<lparr>location = loc, slots = total_slots_nums\<rparr>]
      in and_then (Inr (), evs @ push_evs) (\<lambda>_.
         and_then (go_back (back_raises obs)) (\<lambda>_. (Inr slots_data', []))))"

text \<open>
  The loop over \<^verbatim>\<open>config.locations\<close>; \<open>page idx\<close> is what the page shows at iteration
  \<open>idx\<close> of the loop.
\<close>

fun locations_loop ::
  "config \<Rightarrow> push_env \<Rightarrow> database \<Rightarrow> string \<Rightarrow> (nat \<Rightarrow> location_obs) \<Rightarrow> nat \<Rightarrow> string list \<Rightarrow>
   string set \<Rightarrow> slot_summary list \<Rightarrow> slot_summary list action" where
  "locations_loop cfg env db cat page idx [] visited_locations slots_data = (Inr slots_data, [])"
| "locations_loop cfg env db cat page idx (loc # rest) visited_locations slots_data =
     (if loc \<in> visited_locations
      then locations_loop cfg env db cat page (Suc idx) rest visited_locations slots_data
      else if panel_count (page idx) loc = 0
      then locations_loop cfg env db cat page (Suc idx) rest visited_locations slots_data
      else and_then (visit_location cfg env db cat loc (page idx) slots_data) (\<lambda>slots_data'.
             locations_loop cfg env db cat page (Suc idx) rest
               (insert loc visited_locations) slots_data'))"

text \<open>
  \<^verbatim>\<open>check_locations\<close>: the outcome, the events and the store afterwards. \<open>timestamp\<close> is
  the clock reading of the snapshot write, which happens only when the loop has ended
  without an exception.
\<close>

definition check_locations ::
  "config \<Rightarrow> push_env \<Rightarrow> string \<Rightarrow> (nat \<Rightarrow> location_obs) \<Rightarrow> string \<Rightarrow> database \<Rightarrow>
   (exn + unit) \<times> event list \<times> database" where
  "check_locations cfg env cat page timestamp db =
     (case locations_loop cfg env db cat page 0 (locations cfg) {} [] of
        (Inl e, evs) \<Rightarrow> (Inl e, evs, db)
      | (Inr slots_data, evs) \<Rightarrow> (Inr (), evs, save_slots_info cfg cat slots_data timestamp db))"

section \<open>Timestamps and the purge of old subscriptions\<close>

text \<open>
  A naive \<^verbatim>\<open>datetime\<close> of Python's standard library, as \<^verbatim>\<open>datetime.now()\<close> returns it.
\<close>

record datetime =
  year :: nat
  month :: nat
  day :: nat
  hour :: nat
  minute :: nat
  second :: nat
  microsecond :: nat

text \<open>A number in decimal, filled with zeros on the left to the given width.\<close>

fun zero_padded :: "nat \<Rightarrow> nat \<Rightarrow> string" where
  "zero_padded 0 n = []"
| "zero_padded (Suc width) n = zero_padded width (n div 10) @ [digit_char (n mod 10)]"

text \<open>
  \<^verbatim>\<open>datetime.isoformat()\<close>: \<^verbatim>\<open>YYYY-MM-DDTHH:MM:SS\<close>, followed by a point and six digits
  of microseconds unless the microseconds are zero.
\<close>

definition isoformat :: "datetime \<Rightarrow> string" where
  "isoformat dt =
     zero_padded 4 (year dt) @ ''-'' @ zero_padded 2 (month dt) @ ''-'' @ zero_padded 2 (day dt) @
     ''T'' @ zero_padded 2 (hour dt) @ '':'' @ zero_padded 2 (minute dt) @ '':'' @
     zero_padded 2 (second dt) @
     (if microsecond dt = 0 then [] else ''.'' @ zero_padded 6 (microsecond dt))"

text \<open>The field ranges every \<^verbatim>\<open>datetime\<close> value satisfies.\<close>

definition valid_datetime :: "datetime \<Rightarrow> bool" where
  "valid_datetime dt =
     (1 \<le> year dt \<and> year dt \<le> 9999 \<and> 1 \<le> month dt \<and> month dt \<le> 12 \<and>
      1 \<le> day dt \<and> day dt \<le> 31 \<and> hour dt < 24 \<and> minute dt < 60 \<and> second dt < 60 \<and>
      microsecond dt < 1000000)"

text \<open>
  Naive datetimes are ordered by their fields from the year down to the microsecond; on
  lists of equal length the order of lists is this lexicographic order.
\<close>

definition datetime_fields :: "datetime \<Rightarrow> nat list" where
  "datetime_fields dt =
     [year dt, month dt, day dt, hour dt, minute dt, second dt, microsecond dt]"

text \<open>
  \<^verbatim>\<open>Database.remove_old_subscriptions\<close>: the number of rows deleted and the store
  afterwards. \<open>minus_hours now h\<close> is the library's \<^verbatim>\<open>now - timedelta(hours=h)\<close>. The
  \<^verbatim>\<open>WHERE created_at < :cutoff_str\<close> compares two texts byte by byte, a proper prefix being
  smaller, which is the order of \<^typ>\<open>string\<close>.
\<close>

definition db_remove_old_subscriptions ::
  "(datetime \<Rightarrow> int \<Rightarrow> datetime) \<Rightarrow> datetime \<Rightarrow> int \<Rightarrow> database \<Rightarrow> int \<times> database" where
  "db_remove_old_subscriptions minus_hours now max_age_hours db =
     (let cutoff = minus_hours now max_age_hours;
          cutoff_str = isoformat cutoff;
          kept = filter (\<lambda>s. \<not> created_at s < cutoff_str) (subscriptions db);
          deleted_count = int (length (subscriptions db)) - int (length kept)
      in (deleted_count, db\<lparr>subscriptions := kept\<rparr>))"

text \<open>
  \<^verbatim>\<open>SubscriptionManager.remove_old_subscriptions\<close>, called by \<^verbatim>\<open>DMVMonitor.run\<close> at the
  start of every cycle.
\<close>

definition remove_old_subscriptions ::
  "config \<Rightarrow> (datetime \<Rightarrow> int \<Rightarrow> datetime) \<Rightarrow> datetime \<Rightarrow> database \<Rightarrow> int \<times> database" where
  "remove_old_subscriptions cfg minus_hours now db =
     db_remove_old_subscriptions minus_hours now (max_subscription_age_hours cfg) db"

section \<open>Notions used in the properties\<close>

text \<open>The pair of columns under the \<^verbatim>\<open>UNIQUE\<close> constraint of \<^verbatim>\<open>last_check\<close>.\<close>

abbreviation row_key :: "last_check_row \<Rightarrow> string \<times> string" where
  "row_key r \<equiv> (category r, location_name r)"

text \<open>The table read as a map from (category, location) to the count stored.\<close>

definition slots_of :: "last_check_row list \<Rightarrow> (string \<times> string) \<rightharpoonup> int" where
  "slots_of tbl = map_of (map (\<lambda>r. (row_key r, has_slots r)) tbl)"

text \<open>
  The upserts of one snapshot write in the order \<^verbatim>\<open>save_slots_info\<close> issues them: a zero
  for each location of the list, then the count of each element of \<open>slots_data\<close>.
\<close>

definition writes :: "string \<Rightarrow> string list \<Rightarrow> slot_summary list \<Rightarrow> ((string \<times> string) \<times> int) list" where
  "writes cat locs sd = map (\<lambda>l. ((cat, l), 0)) locs @ map (\<lambda>s. ((cat, location s), slots s)) sd"

text \<open>A list of upserts applied to the table from left to right.\<close>

definition apply_writes ::
  "string \<Rightarrow> last_check_row list \<Rightarrow> ((string \<times> string) \<times> int) list \<Rightarrow> last_check_row list" where
  "apply_writes ts tbl kvs =
     foldl (\<lambda>t kv. upsert_last_check (fst (fst kv)) (snd (fst kv)) (snd kv) ts t) tbl kvs"


text \<open>The rows of the snapshot without their timestamps.\<close>

definition row_counts :: "last_check_row list \<Rightarrow> (int \<times> string \<times> string \<times> int) list" where
  "row_counts tbl = map (\<lambda>r. (row_id r, category r, location_name r, has_slots r)) tbl"

section \<open>Example data\<close>

text \<open>Four dates with three times each, in the order they were extracted.\<close>

definition june_example :: slot_dict where
  "june_example = [(''June 1'', [''9:00'', ''10:00'', ''11:00'']),
                   (''June 2'', [''9:00'', ''10:00'', ''11:00'']),
                   (''June 3'', [''9:00'', ''10:00'', ''11:00'']),
                   (''June 4'', [''9:00'', ''10:00'', ''11:00''])]"

text \<open>
  A push environment for examples: three descriptors whose endpoints are a Google endpoint,
  an endpoint of an unknown service and the empty endpoint; every delivery succeeds.
\<close>

definition example_push_env :: push_env where
  "example_push_env = \<lparr>
     json_endpoint = (\<lambda>s. if s = ''sub-fcm'' then Some ''https://fcm.googleapis.com/fcm/send/abc''
                          else if s = ''sub-other'' then Some ''https://push.example.org/v1/abc''
                          else if s = ''sub-empty'' then Some []
                          else None),
     urlparse = (\<lambda>e. if e = ''https://push.example.org/v1/abc'' then (''https'', ''push.example.org'')
                     else ([], [])),
     webpush = (\<lambda>s title body aud. True) \<rparr>"

text \<open>
  Two subscriptions to category \<open>fees\<close> at Cary: one with a push descriptor, one whose
  descriptor is the empty string.
\<close>

definition cary_fees_subscription :: subscription where
  "cary_fees_subscription = \<lparr>user_id = ''u1'', push_subscription = ''sub-fcm'',
     sub_categories = [''fees''], sub_locations = [''Cary''], date_range_days = 14,
     created_at = ''2024-06-01T10:00:00'', last_notification_sent = None\<rparr>"

definition no_descriptor_subscription :: subscription where
  "no_descriptor_subscription = \<lparr>user_id = ''u2'', push_subscription = [],
     sub_categories = [''fees''], sub_locations = [''Cary''], date_range_days = 14,
     created_at = ''2024-06-01T10:00:00'', last_notification_sent = None\<rparr>"

text \<open>
  Three pages as one attempt of \<^verbatim>\<open>safe_click\<close> sees them: the click goes through and the
  expected text never shows; the error page of the site; the expected text already there.
\<close>

definition failing_attempt :: attempt_obs where
  "failing_attempt = \<lparr>expected_visible = NotVisible, target_visible = True, click_returns = True,
     expected_appears = False, page_content = Some ''<html>Select a Location</html>''\<rparr>"

definition error_page_attempt :: attempt_obs where
  "error_page_attempt = \<lparr>expected_visible = NotVisible, target_visible = False, click_returns = False,
     expected_appears = False,
     page_content = Some ''<p>Unfortunately, we have encountered an error.</p>''\<rparr>"

definition visible_attempt :: attempt_obs where
  "visible_attempt = \<lparr>expected_visible = Visible, target_visible = True, click_returns = True,
     expected_appears = True, page_content = Some []\<rparr>"

text \<open>
  A calendar at Cary: the indicator never shows, June 2025 has one active day with a
  placeholder, an option of a no-break space only and two times, one of them between
  no-break spaces, the next-month control is enabled and July has no active day.
\<close>

definition calm_spinner :: spinner_obs where
  "calm_spinner = \<lparr>spinner_appears = Some PlaywrightTimeoutError, spinner_disappears = None\<rparr>"

definition clicking_attempt :: attempt_obs where
  "clicking_attempt = \<lparr>expected_visible = NotVisible, target_visible = True, click_returns = True,
     expected_appears = True, page_content = Some []\<rparr>"

definition padded_time :: string where
  "padded_time = nbsp @ ''10:00 AM'' @ nbsp"

definition june_first :: day_obs where
  "june_first = \<lparr>day_number = Inr 1, day_click = (\<lambda>attempt. clicking_attempt),
     day_spinner = calm_spinner,
     option_texts = Inr [''-'', nbsp, ''9:00 AM'', padded_time]\<rparr>"

definition june_month :: month_obs where
  "june_month = \<lparr>month_header = Some (''June'', ''2025''), now_month = 6, now_year = 2025,
     active_days = [june_first]\<rparr>"

definition july_month :: month_obs where
  "july_month = \<lparr>month_header = Some (''July'', ''2025''), now_month = 6, now_year = 2025,
     active_days = []\<rparr>"

definition cary_calendar :: slots_obs where
  "cary_calendar = \<lparr>first_spinner = calm_spinner, next_button_count = 1,
     current_month = june_month, next_click = (\<lambda>attempt. clicking_attempt),
     next_spinner = calm_spinner, next_month = july_month\<rparr>"

text \<open>
  A scan of category Fees with a list of two locations: the panel of Cary opens the
  calendar above, the panel of Durham East leads to the error page of the site; the way
  back works for both. The store holds the two subscriptions and no snapshot yet.
\<close>

definition two_locations :: config where
  "two_locations = Config\<lparr>locations := [''Cary'', ''Durham East'']\<rparr>"

text \<open>
  The text filter of the examples: the text contains the string. On texts and names in
  the same letter case this is what the filter of the browser answers.
\<close>

definition contains_text :: "string \<Rightarrow> string \<Rightarrow> bool" where
  "contains_text text s = py_in s text"

definition cary_panel :: location_obs where
  "cary_panel = \<lparr>active_panels = [''Cary'', ''Durham East''], has_text = contains_text,
     enter_click = (\<lambda>attempt. clicking_attempt),
     calendar = cary_calendar, back_raises = None\<rparr>"

definition broken_panel :: location_obs where
  "broken_panel = \<lparr>active_panels = [''Cary'', ''Durham East''], has_text = contains_text,
     enter_click = (\<lambda>attempt. error_page_attempt),
     calendar = cary_calendar, back_raises = None\<rparr>"

definition fees_page :: "nat \<Rightarrow> location_obs" where
  "fees_page idx = (if idx = 0 then cary_panel else broken_panel)"

text \<open>
  The same two locations with the failing one first, and the same scan when the way back
  from the failing location times out.
\<close>

definition failing_first :: config where
  "failing_first = Config\<lparr>locations := [''Durham East'', ''Cary'']\<rparr>"

definition failing_first_page :: "nat \<Rightarrow> location_obs" where
  "failing_first_page idx = (if idx = 0 then broken_panel else cary_panel)"

definition stuck_panel :: location_obs where
  "stuck_panel = broken_panel\<lparr>back_raises := Some PlaywrightTimeoutError\<rparr>"

definition stuck_page :: "nat \<Rightarrow> location_obs" where
  "stuck_page idx = (if idx = 0 then stuck_panel else cary_panel)"

text \<open>
  Two offices of which one name is the beginning of the other, on a page whose only active
  panel is the one of Hendersonville.
\<close>

definition two_hendersons :: config where
  "two_hendersons = Config\<lparr>locations := [''Henderson'', ''Hendersonville'']\<rparr>"

definition hendersonville_panel :: location_obs where
  "hendersonville_panel = \<lparr>active_panels = [''Hendersonville''], has_text = contains_text,
     enter_click = (\<lambda>attempt. clicking_attempt),
     calendar = cary_calendar, back_raises = None\<rparr>"

definition hendersonville_page :: "nat \<Rightarrow> location_obs" where
  "hendersonville_page idx = hendersonville_panel"


definition example_db :: database where
  "example_db = \<lparr>subscriptions = [no_descriptor_subscription, cary_fees_subscription],
     last_check = []\<rparr>"

text \<open>
  A purge on 4 June 2025 at 10:00:00.5 with three subscriptions created around the cutoff
  three days earlier. \<open>same_month_minus_hours\<close> is the subtraction of whole days that do
  not leave the month.
\<close>

definition same_month_minus_hours :: "datetime \<Rightarrow> int \<Rightarrow> datetime" where
  "same_month_minus_hours now h = now\<lparr>day := day now - nat (h div 24)\<rparr>"

definition purge_time :: datetime where
  "purge_time = \<lparr>year = 2025, month = 6, day = 4, hour = 10, minute = 0, second = 0,
     microsecond = 500000\<rparr>"

definition subscription_created :: "string \<Rightarrow> string \<Rightarrow> subscription" where
  "subscription_created uid stamp = \<lparr>user_id = uid, push_subscription = ''sub-fcm'',
     sub_categories = [''fees''], sub_locations = [''Cary''], date_range_days = 14,
     created_at = stamp, last_notification_sent = None\<rparr>"

definition purge_db :: database where
  "purge_db = \<lparr>subscriptions =
       [subscription_created ''old'' ''2025-06-01T10:00:00'',
        subscription_created ''boundary'' ''2025-06-01T10:00:00.500000'',
        subscription_created ''young'' ''2025-06-01T10:00:01.500000''],
     last_check = []\<rparr>"

chapter \<open>Properties\<close>

section \<open>Strings\<close>



lemma digit_char_simps [simp]:
  "digit_char 0 = CHR ''0''" "digit_char 1 = CHR ''1''" "digit_char 2 = CHR ''2''"
  "digit_char 3 = CHR ''3''" "digit_char 4 = CHR ''4''" "digit_char 5 = CHR ''5''"
  "digit_char 6 = CHR ''6''" "digit_char 7 = CHR ''7''" "digit_char 8 = CHR ''8''"
  "digit_char 9 = CHR ''9''" "digit_char (Suc 0) = CHR ''1''"
  by code_simp+

lemma foldl_snoc_map: "foldl (\<lambda>ls item. ls @ [f item]) acc xs = acc @ map f xs"
  by (induction xs arbitrary: acc) auto

section \<open>Message composition\<close>

text \<open>
  Claim C6. The body of a notification is the three header lines followed by the date lines
  joined by line feeds: there are \<open>min 3 n\<close> date lines for \<open>n\<close> dates, the \<open>i\<close>-th of them
  is made from the \<open>i\<close>-th entry of the mapping in insertion order and shows the date, its
  first two times separated by commas and, when the date has more than two times,
  \<open>(+K more)\<close> with \<open>K\<close> the number of times left out; when there are more than three dates
  a last line \<open>(+M more dates)\<close> follows with \<open>M = n - 3\<close>. For the dates June 1 to June 4
  with the times 9:00, 10:00 and 11:00 each, the body has the lines
  \<open>June 1: 9:00, 10:00 (+1 more)\<close>, the same for June 2 and June 3, and \<open>(+1 more dates)\<close>.
\<close>

theorem C6_message_body:
  "(\<exists>display_lines.
     notification_body cat loc total_slots =
       emoji_clipboard @ '' '' @ cat @ newline @ emoji_pin @ '' '' @ loc @ newline @
       emoji_calendar @ '' Available slots:'' @ newline @
       py_join newline display_lines @
       (if length total_slots > 3
        then newline @ ''(+'' @ str_nat (length total_slots - 3) @ '' more dates)'' else [])
   \<and> length display_lines = min 3 (length total_slots)
   \<and> (\<forall>i < length display_lines.
        display_lines ! i =
          fst (total_slots ! i) @ '': '' @ py_join '', '' (take 2 (snd (total_slots ! i))) @
          (if length (snd (total_slots ! i)) > 2
           then '' (+'' @ str_nat (length (snd (total_slots ! i)) - 2) @ '' more)'' else [])))
  \<and> notification_body ''Fees'' ''Cary'' june_example =
      emoji_clipboard @ '' Fees'' @ newline @ emoji_pin @ '' Cary'' @ newline @
      emoji_calendar @ '' Available slots:'' @ newline @
      ''June 1: 9:00, 10:00 (+1 more)'' @ newline @
      ''June 2: 9:00, 10:00 (+1 more)'' @ newline @
      ''June 3: 9:00, 10:00 (+1 more)'' @ newline @
      ''(+1 more dates)''"
proof (rule conjI)
  show "\<exists>display_lines.
     notification_body cat loc total_slots =
       emoji_clipboard @ '' '' @ cat @ newline @ emoji_pin @ '' '' @ loc @ newline @
       emoji_calendar @ '' Available slots:'' @ newline @
       py_join newline display_lines @
       (if length total_slots > 3
        then newline @ ''(+'' @ str_nat (length total_slots - 3) @ '' more dates)'' else [])
   \<and> length display_lines = min 3 (length total_slots)
   \<and> (\<forall>i < length display_lines.
        display_lines ! i =
          fst (total_slots ! i) @ '': '' @ py_join '', '' (take 2 (snd (total_slots ! i))) @
          (if length (snd (total_slots ! i)) > 2
           then '' (+'' @ str_nat (length (snd (total_slots ! i)) - 2) @ '' more)'' else []))"
    apply (rule exI[of _ "take 3 (map slot_line total_slots)"])
    apply (simp add: notification_body_def foldl_snoc_map Let_def)
    apply (simp add: slot_line_def Let_def)
    done
next
  show "notification_body ''Fees'' ''Cary'' june_example =
      emoji_clipboard @ '' Fees'' @ newline @ emoji_pin @ '' Cary'' @ newline @
      emoji_calendar @ '' Available slots:'' @ newline @
      ''June 1: 9:00, 10:00 (+1 more)'' @ newline @
      ''June 2: 9:00, 10:00 (+1 more)'' @ newline @
      ''June 3: 9:00, 10:00 (+1 more)'' @ newline @
      ''(+1 more dates)''"
    by (simp add: notification_body_def june_example_def slot_line_def str_nat.simps)
qed

theorem C6_message_body_witness:
  "\<exists>ls. notification_body ''Fees'' ''Cary'' june_example =
      emoji_clipboard @ '' Fees'' @ newline @ emoji_pin @ '' Cary'' @ newline @
      emoji_calendar @ '' Available slots:'' @ newline @
      py_join newline ls @ newline @ ''(+1 more dates)''
    \<and> ls = [''June 1: 9:00, 10:00 (+1 more)'', ''June 2: 9:00, 10:00 (+1 more)'',
             ''June 3: 9:00, 10:00 (+1 more)'']"
proof -
  from C6_message_body[of "''Fees''" "''Cary''" june_example] obtain ls where
    b: "notification_body ''Fees'' ''Cary'' june_example =
       emoji_clipboard @ '' '' @ ''Fees'' @ newline @ emoji_pin @ '' '' @ ''Cary'' @ newline @
       emoji_calendar @ '' Available slots:'' @ newline @
       py_join newline ls @
       (if length june_example > 3
        then newline @ ''(+'' @ str_nat (length june_example - 3) @ '' more dates)'' else [])"
    and l: "length ls = min 3 (length june_example)"
    and e: "\<forall>i < length ls.
        ls ! i =
          fst (june_example ! i) @ '': '' @ py_join '', '' (take 2 (snd (june_example ! i))) @
          (if length (snd (june_example ! i)) > 2
           then '' (+'' @ str_nat (length (snd (june_example ! i)) - 2) @ '' more)'' else [])"
    by blast
  have len: "length ls = 3" using l by (simp add: june_example_def)
  have e0: "ls ! 0 = ''June 1: 9:00, 10:00 (+1 more)''"
    using e[rule_format, of 0] len by (simp add: june_example_def str_nat.simps)
  have e1: "ls ! 1 = ''June 2: 9:00, 10:00 (+1 more)''"
    using e[rule_format, of 1] len by (simp add: june_example_def str_nat.simps)
  have e2: "ls ! 2 = ''June 3: 9:00, 10:00 (+1 more)''"
    using e[rule_format, of 2] len by (simp add: june_example_def str_nat.simps)
  obtain a b c where "ls = [a, b, c]"
    using len by (auto simp: length_Suc_conv numeral_3_eq_3)
  then have ls: "ls = [''June 1: 9:00, 10:00 (+1 more)'', ''June 2: 9:00, 10:00 (+1 more)'',
             ''June 3: 9:00, 10:00 (+1 more)'']"
    using e0 e1 e2 by simp
  have "notification_body ''Fees'' ''Cary'' june_example =
      emoji_clipboard @ '' Fees'' @ newline @ emoji_pin @ '' Cary'' @ newline @
      emoji_calendar @ '' Available slots:'' @ newline @
      py_join newline ls @ newline @ ''(+1 more dates)''"
    using b by (simp add: june_example_def str_nat.simps)
  with ls show ?thesis by blast
qed

section \<open>Audience of a push message\<close>



section \<open>Matching subscriptions\<close>

lemma interested_acc:
  "foldl (\<lambda>interested item.
              if push_subscription item = [] then interested
              else if k \<in> set (sub_categories item) \<and> l \<in> set (sub_locations item)
                   then interested @ [item]
                   else interested) acc subs
   = acc @ filter (\<lambda>s. push_subscription s \<noteq> [] \<and> k \<in> set (sub_categories s) \<and> l \<in> set (sub_locations s)) subs"
  by (induction subs arbitrary: acc) auto

lemma interested_filter:
  "interested_subscriptions k l subs =
     filter (\<lambda>s. push_subscription s \<noteq> [] \<and> k \<in> set (sub_categories s) \<and> l \<in> set (sub_locations s)) subs"
  by (simp add: interested_subscriptions_def interested_acc)

lemma send_to_all_Nil: "send_to_all env t b [] = (0, [])" by simp

text \<open>
  Claim C5, amended. The selection loop keeps exactly the loaded subscriptions that have a
  non-empty push descriptor, whose category list contains the category's key and whose
  location list contains the location: both memberships are required, and a subscription
  without a descriptor is skipped whatever it lists. For an event with slots whose
  category has a non-empty key, the pushes of \<^verbatim>\<open>send_notification\<close> go to exactly these
  subscriptions, in table order.
\<close>

theorem C5_matching:
  "(sub \<in> set (interested_subscriptions key loc subs) \<longleftrightarrow>
      sub \<in> set subs \<and> push_subscription sub \<noteq> [] \<and>
      key \<in> set (sub_categories sub) \<and> loc \<in> set (sub_locations sub))
   \<and> (total_slots \<noteq> [] \<and> map_of (category_map cfg) cat = Some key \<and> key \<noteq> [] \<longrightarrow>
        send_notification cfg env db cat loc total_slots =
          send_to_all env notification_title (notification_body cat loc total_slots)
            (interested_subscriptions key loc (load_subscriptions db)))"
proof (intro conjI impI)
  show "sub \<in> set (interested_subscriptions key loc subs) \<longleftrightarrow>
      sub \<in> set subs \<and> push_subscription sub \<noteq> [] \<and>
      key \<in> set (sub_categories sub) \<and> loc \<in> set (sub_locations sub)"
    by (auto simp: interested_filter)
next
  assume a: "total_slots \<noteq> [] \<and> map_of (category_map cfg) cat = Some key \<and> key \<noteq> []"
  show "send_notification cfg env db cat loc total_slots =
          send_to_all env notification_title (notification_body cat loc total_slots)
            (interested_subscriptions key loc (load_subscriptions db))"
  proof (cases "interested_subscriptions key loc (load_subscriptions db) = []")
    case True
    with a show ?thesis by (simp add: send_notification_def Let_def)
  next
    case False
    then have "load_subscriptions db \<noteq> []" by (auto simp: interested_filter)
    with a False show ?thesis by (simp add: send_notification_def Let_def)
  qed
qed

lemma cfg_fees: "map_of (category_map Config) ''Fees'' = Some ''fees''"
  by (simp add: Config_def)

theorem C5_matching_witness:
  "cary_fees_subscription \<in> set (interested_subscriptions ''fees'' ''Cary''
       [no_descriptor_subscription, cary_fees_subscription])
   \<and> cary_fees_subscription \<notin> set (interested_subscriptions ''fees'' ''Durham East''
       [no_descriptor_subscription, cary_fees_subscription])
   \<and> cary_fees_subscription \<notin> set (interested_subscriptions ''permits'' ''Cary''
       [no_descriptor_subscription, cary_fees_subscription])
   \<and> send_notification Config example_push_env
        \<lparr>subscriptions = [no_descriptor_subscription, cary_fees_subscription], last_check = []\<rparr>
        ''Fees'' ''Cary'' june_example
       = send_to_all example_push_env notification_title
           (notification_body ''Fees'' ''Cary'' june_example) [cary_fees_subscription]"
proof -
  note m = C5_matching [where sub = cary_fees_subscription
      and subs = "[no_descriptor_subscription, cary_fees_subscription]"]
  have 1: "cary_fees_subscription \<in> set (interested_subscriptions ''fees'' ''Cary''
       [no_descriptor_subscription, cary_fees_subscription])"
    using m [where key = "''fees''" and loc = "''Cary''"]
    by (simp add: cary_fees_subscription_def)
  have 2: "cary_fees_subscription \<notin> set (interested_subscriptions ''fees'' ''Durham East''
       [no_descriptor_subscription, cary_fees_subscription])"
    using m [where key = "''fees''" and loc = "''Durham East''"]
    by (simp add: cary_fees_subscription_def)
  have 3: "cary_fees_subscription \<notin> set (interested_subscriptions ''permits'' ''Cary''
       [no_descriptor_subscription, cary_fees_subscription])"
    using m [where key = "''permits''" and loc = "''Cary''"]
    by (simp add: cary_fees_subscription_def)
  have i: "interested_subscriptions ''fees'' ''Cary''
       [no_descriptor_subscription, cary_fees_subscription] = [cary_fees_subscription]"
    by (simp add: interested_subscriptions_def cary_fees_subscription_def
        no_descriptor_subscription_def)
  have 4: "send_notification Config example_push_env
        \<lparr>subscriptions = [no_descriptor_subscription, cary_fees_subscription], last_check = []\<rparr>
        ''Fees'' ''Cary'' june_example
       = send_to_all example_push_env notification_title
           (notification_body ''Fees'' ''Cary'' june_example) [cary_fees_subscription]"
    using C5_matching [where total_slots = june_example and cfg = Config and cat = "''Fees''"
        and key = "''fees''" and loc = "''Cary''" and env = example_push_env
        and db = "\<lparr>subscriptions = [no_descriptor_subscription, cary_fees_subscription], last_check = []\<rparr>"]
      cfg_fees i
    by (simp add: june_example_def load_subscriptions_def)
  from 1 2 3 4 show ?thesis by blast
qed

text \<open>
  The claim as first stated (selection if and only if the two memberships hold) fails for
  a loaded subscription that lists the category and the location and has an empty
  descriptor: line 302 skips it.
\<close>

theorem C5_counterexample:
  "no_descriptor_subscription \<in> set (load_subscriptions
       \<lparr>subscriptions = [no_descriptor_subscription, cary_fees_subscription], last_check = []\<rparr>)
   \<and> ''fees'' \<in> set (sub_categories no_descriptor_subscription)
   \<and> ''Cary'' \<in> set (sub_locations no_descriptor_subscription)
   \<and> no_descriptor_subscription \<notin> set (interested_subscriptions ''fees'' ''Cary''
       (load_subscriptions
         \<lparr>subscriptions = [no_descriptor_subscription, cary_fees_subscription], last_check = []\<rparr>))"
  by (simp add: interested_subscriptions_def cary_fees_subscription_def
        no_descriptor_subscription_def load_subscriptions_def)

section \<open>Click and confirm\<close>

lemma attempt_body_events:
  "snd (attempt_body clk ex obs) = [] \<or> snd (attempt_body clk ex obs) = [Clicked clk]"
  by (simp add: attempt_body_def)

lemma count_attempt_screenshots [simp]:
  "count_list (snd (attempt_body clk ex obs)) Screenshot = 0"
  by (simp add: attempt_body_def)

lemma count_list_app [simp]: "count_list (xs @ ys) a = count_list xs a + count_list ys a"
  by (induction xs) auto

lemma count_concat_attempts [simp]:
  "count_list (concat (map (\<lambda>i. snd (attempt_body clk ex (page i))) is)) Screenshot = 0"
  by (induction "is") auto

lemma loop_exhausted:
  "j < n \<Longrightarrow> int n = max_attempts \<Longrightarrow>
   (\<forall>i. j \<le> i \<and> i < n \<longrightarrow> \<not> fst (attempt_body clk ex (page i)) \<and> \<not> banner_detected (page i)) \<Longrightarrow>
   safe_click_loop clk ex max_attempts page [j..<n] =
     (Inl RestartRequiredException,
      concat (map (\<lambda>i. snd (attempt_body clk ex (page i))) [j..<n]) @ [Screenshot])"
proof (induction "n - j" arbitrary: j)
  case 0
  then show ?case by simp
next
  case (Suc d)
  have up: "[j..<n] = j # [Suc j..<n]" using Suc.prems(1) by (simp add: upt_conv_Cons)
  obtain ok evs where ab: "attempt_body clk ex (page j) = (ok, evs)" by (cases "attempt_body clk ex (page j)")
  have nok: "\<not> ok" and nb: "\<not> banner_detected (page j)" using Suc.prems ab by auto
  show ?case
  proof (cases "Suc j = n")
    case True
    then have "int j = max_attempts - 1" using Suc.prems(2) by simp
    with True up ab nok nb show ?thesis by simp
  next
    case False
    then have lt: "Suc j < n" using Suc.prems(1) by simp
    have ne: "int j \<noteq> max_attempts - 1" using False Suc.prems(2) by auto
    have "d = n - Suc j" using Suc.hyps(2) by simp
    from Suc.hyps(1)[OF this lt Suc.prems(2)] Suc.prems(3)
    have ih: "safe_click_loop clk ex max_attempts page [Suc j..<n] =
       (Inl RestartRequiredException,
        concat (map (\<lambda>i. snd (attempt_body clk ex (page i))) [Suc j..<n]) @ [Screenshot])"
      by simp
    show ?thesis using up ab nok nb ne ih by simp
  qed
qed

lemma loop_banner:
  "j \<le> k \<Longrightarrow> k < n \<Longrightarrow> int n = max_attempts \<Longrightarrow>
   (\<forall>i. j \<le> i \<and> i < k \<longrightarrow> \<not> fst (attempt_body clk ex (page i)) \<and> \<not> banner_detected (page i)) \<Longrightarrow>
   \<not> fst (attempt_body clk ex (page k)) \<Longrightarrow> banner_detected (page k) \<Longrightarrow>
   safe_click_loop clk ex max_attempts page [j..<n] =
     (Inl ServerErrorException,
      concat (map (\<lambda>i. snd (attempt_body clk ex (page i))) [j..<Suc k]))"
proof (induction "k - j" arbitrary: j)
  case 0
  then have jk: "j = k" by simp
  have up: "[j..<n] = j # [Suc j..<n]" using 0 by (simp add: upt_conv_Cons)
  obtain ok evs where ab: "attempt_body clk ex (page j) = (ok, evs)" by (cases "attempt_body clk ex (page j)")
  show ?case using 0 jk up ab by simp
next
  case (Suc d)
  then have jk: "j < k" by simp
  have up: "[j..<n] = j # [Suc j..<n]" using Suc.prems jk by (simp add: upt_conv_Cons)
  have up': "[j..<Suc k] = j # [Suc j..<Suc k]" using jk by (simp add: upt_conv_Cons)
  obtain ok evs where ab: "attempt_body clk ex (page j) = (ok, evs)" by (cases "attempt_body clk ex (page j)")
  have nok: "\<not> ok" and nb: "\<not> banner_detected (page j)" using Suc.prems jk ab by auto
  have ne: "int j \<noteq> max_attempts - 1" using jk Suc.prems by auto
  have d: "d = k - Suc j" using Suc.hyps(2) by simp
  have ih: "safe_click_loop clk ex max_attempts page [Suc j..<n] =
     (Inl ServerErrorException,
      concat (map (\<lambda>i. snd (attempt_body clk ex (page i))) [Suc j..<Suc k]))"
    using Suc.hyps(1)[OF d _ Suc.prems(2,3) _ Suc.prems(5,6)] jk Suc.prems(4) by simp
  show ?case unfolding up up' using ab nok nb ne ih by simp
qed

text \<open>
  Claim C3, amended. Take a call of \<^verbatim>\<open>safe_click\<close> with \<open>max_attempts\<close> at least one.
  If every one of the \<open>max_attempts\<close> attempts fails and the handler finds no error banner,
  the call raises \<^verbatim>\<open>RestartRequiredException\<close>, and it has requested exactly one
  screenshot, as its last action before raising. If attempt \<open>k\<close> fails with the banner on
  the page, after attempts that failed without it, the call raises
  \<^verbatim>\<open>ServerErrorException\<close> at once: its events are those of attempts \<open>0\<close> to \<open>k\<close> and no
  screenshot is among them.
\<close>

theorem C3_safe_click_failure:
  assumes "0 < max_attempts"
  shows "((\<forall>i < nat max_attempts.
            \<not> fst (attempt_body (click_locator tgt) (expected_locator expected_text) (page i)) \<and>
            \<not> banner_detected (page i)) \<longrightarrow>
          fst (safe_click tgt expected_text max_attempts page) = Inl RestartRequiredException \<and>
          count_list (snd (safe_click tgt expected_text max_attempts page)) Screenshot = 1 \<and>
          last (snd (safe_click tgt expected_text max_attempts page)) = Screenshot)
       \<and> (k < nat max_attempts \<and>
          (\<forall>i < k.
            \<not> fst (attempt_body (click_locator tgt) (expected_locator expected_text) (page i)) \<and>
            \<not> banner_detected (page i)) \<and>
          \<not> fst (attempt_body (click_locator tgt) (expected_locator expected_text) (page k)) \<and>
          banner_detected (page k) \<longrightarrow>
          fst (safe_click tgt expected_text max_attempts page) = Inl ServerErrorException \<and>
          snd (safe_click tgt expected_text max_attempts page) =
            concat (map (\<lambda>i. snd (attempt_body (click_locator tgt)
                                    (expected_locator expected_text) (page i))) [0..<Suc k]) \<and>
          count_list (snd (safe_click tgt expected_text max_attempts page)) Screenshot = 0)"
proof (intro conjI impI)
  assume a: "\<forall>i < nat max_attempts.
            \<not> fst (attempt_body (click_locator tgt) (expected_locator expected_text) (page i)) \<and>
            \<not> banner_detected (page i)"
  have n: "0 < nat max_attempts" "int (nat max_attempts) = max_attempts" using assms by auto
  have e: "safe_click tgt expected_text max_attempts page =
     (Inl RestartRequiredException,
      concat (map (\<lambda>i. snd (attempt_body (click_locator tgt) (expected_locator expected_text) (page i)))
         [0..<nat max_attempts]) @ [Screenshot])"
    unfolding safe_click_def using loop_exhausted[OF n] a by simp
  show "fst (safe_click tgt expected_text max_attempts page) = Inl RestartRequiredException"
    by (simp add: e)
  show "count_list (snd (safe_click tgt expected_text max_attempts page)) Screenshot = 1"
    by (simp add: e)
  show "last (snd (safe_click tgt expected_text max_attempts page)) = Screenshot"
    by (simp add: e)
next
  assume b: "k < nat max_attempts \<and>
          (\<forall>i < k.
            \<not> fst (attempt_body (click_locator tgt) (expected_locator expected_text) (page i)) \<and>
            \<not> banner_detected (page i)) \<and>
          \<not> fst (attempt_body (click_locator tgt) (expected_locator expected_text) (page k)) \<and>
          banner_detected (page k)"
  have n: "int (nat max_attempts) = max_attempts" using assms by auto
  have e: "safe_click tgt expected_text max_attempts page =
     (Inl ServerErrorException,
      concat (map (\<lambda>i. snd (attempt_body (click_locator tgt) (expected_locator expected_text) (page i)))
         [0..<Suc k]))"
    unfolding safe_click_def using loop_banner[OF _ _ n, of 0 k] b by simp
  show "fst (safe_click tgt expected_text max_attempts page) = Inl ServerErrorException"
    by (simp add: e)
  show "snd (safe_click tgt expected_text max_attempts page) =
            concat (map (\<lambda>i. snd (attempt_body (click_locator tgt)
                                    (expected_locator expected_text) (page i))) [0..<Suc k])"
    by (simp add: e)
  show "count_list (snd (safe_click tgt expected_text max_attempts page)) Screenshot = 0"
    by (simp only: e snd_conv count_concat_attempts)
qed

text \<open>
  Claim C8. When an expected state is given and it is visible at the start of the first
  attempt, \<^verbatim>\<open>safe_click\<close> returns \<open>True\<close> and has caused no event at all: the target was
  not clicked.
\<close>

theorem C8_expected_already_visible:
  "0 < max_attempts \<Longrightarrow> expected_text = Some s \<Longrightarrow> expected_visible (page 0) = Visible \<Longrightarrow>
   safe_click tgt expected_text max_attempts page = (Inr True, [])"
proof -
  assume a: "0 < max_attempts" "expected_text = Some s" "expected_visible (page 0) = Visible"
  have up: "[0..<nat max_attempts] = 0 # [Suc 0..<nat max_attempts]"
    using a(1) by (simp add: upt_conv_Cons)
  show ?thesis
    unfolding safe_click_def up using a(2,3)
    by (simp add: attempt_body_def expected_locator_def)
qed

theorem C3_safe_click_failure_witness:
  "fst (safe_click (Str ''#cmdMakeAppt'') (Some ''Please select an appointment type'') 3
          (\<lambda>attempt. failing_attempt)) = Inl RestartRequiredException
   \<and> count_list (snd (safe_click (Str ''#cmdMakeAppt'') (Some ''Please select an appointment type'') 3
          (\<lambda>attempt. failing_attempt))) Screenshot = 1
   \<and> last (snd (safe_click (Str ''#cmdMakeAppt'') (Some ''Please select an appointment type'') 3
          (\<lambda>attempt. failing_attempt))) = Screenshot
   \<and> fst (safe_click (Str ''#cmdMakeAppt'') (Some ''Please select an appointment type'') 3
          (\<lambda>attempt. if attempt = 1 then error_page_attempt else failing_attempt))
       = Inl ServerErrorException
   \<and> snd (safe_click (Str ''#cmdMakeAppt'') (Some ''Please select an appointment type'') 3
          (\<lambda>attempt. if attempt = 1 then error_page_attempt else failing_attempt))
       = [Clicked (Selector ''#cmdMakeAppt'')]"
proof -
  have f: "\<not> fst (attempt_body clk (Some ex) failing_attempt)" for clk ex
    by (simp add: attempt_body_def failing_attempt_def)
  have fb: "\<not> banner_detected failing_attempt"
    by (simp add: banner_detected_def failing_attempt_def error_banner_def)
  have e: "\<not> fst (attempt_body clk ex error_page_attempt)" for clk ex
    by (simp add: attempt_body_def error_page_attempt_def)
  have eb: "banner_detected error_page_attempt"
    by (simp add: banner_detected_def error_page_attempt_def error_banner_def)
  have evs: "snd (attempt_body (Selector ''#cmdMakeAppt'')
       (Some (ByText ''Please select an appointment type'')) failing_attempt)
       = [Clicked (Selector ''#cmdMakeAppt'')]"
      "snd (attempt_body (Selector ''#cmdMakeAppt'')
       (Some (ByText ''Please select an appointment type'')) error_page_attempt) = []"
    by (simp_all add: attempt_body_def failing_attempt_def error_page_attempt_def)
  have loc: "click_locator (Str ''#cmdMakeAppt'') = Selector ''#cmdMakeAppt''"
     "expected_locator (Some ''Please select an appointment type'')
        = Some (ByText ''Please select an appointment type'')"
    by (simp_all add: is_selector_def expected_locator_def)
  have up: "[0..<Suc 1] = [0, 1]" by (simp add: upt_conv_Cons)
  note a = C3_safe_click_failure [where max_attempts = 3 and tgt = "Str ''#cmdMakeAppt''"
      and expected_text = "Some ''Please select an appointment type''"
      and page = "\<lambda>attempt. failing_attempt", THEN conjunct1, rule_format]
  note b = C3_safe_click_failure [where max_attempts = 3 and tgt = "Str ''#cmdMakeAppt''"
      and expected_text = "Some ''Please select an appointment type''" and k = 1
      and page = "\<lambda>attempt. if attempt = 1 then error_page_attempt else failing_attempt",
      THEN conjunct2, rule_format]
  have b': "fst (safe_click (Str ''#cmdMakeAppt'') (Some ''Please select an appointment type'') 3
          (\<lambda>attempt. if attempt = 1 then error_page_attempt else failing_attempt))
       = Inl ServerErrorException
     \<and> snd (safe_click (Str ''#cmdMakeAppt'') (Some ''Please select an appointment type'') 3
          (\<lambda>attempt. if attempt = 1 then error_page_attempt else failing_attempt))
       = concat (map (\<lambda>i. snd (attempt_body (click_locator (Str ''#cmdMakeAppt''))
                 (expected_locator (Some ''Please select an appointment type''))
                 (if i = 1 then error_page_attempt else failing_attempt))) [0..<Suc 1])"
    using b f fb e eb by (simp add: is_selector_def expected_locator_def)
  have b'': "snd (safe_click (Str ''#cmdMakeAppt'') (Some ''Please select an appointment type'') 3
          (\<lambda>attempt. if attempt = 1 then error_page_attempt else failing_attempt))
       = [Clicked (Selector ''#cmdMakeAppt'')]"
    using b' unfolding up loc by (simp add: evs)
  have a': "fst (safe_click (Str ''#cmdMakeAppt'') (Some ''Please select an appointment type'') 3
          (\<lambda>attempt. failing_attempt)) = Inl RestartRequiredException
   \<and> count_list (snd (safe_click (Str ''#cmdMakeAppt'') (Some ''Please select an appointment type'') 3
          (\<lambda>attempt. failing_attempt))) Screenshot = 1
   \<and> last (snd (safe_click (Str ''#cmdMakeAppt'') (Some ''Please select an appointment type'') 3
          (\<lambda>attempt. failing_attempt))) = Screenshot"
    using a f fb by (simp add: is_selector_def expected_locator_def)
  show ?thesis using a' b' b'' by simp
qed

text \<open>
  Without the bound on \<open>max_attempts\<close> the claim fails: with \<open>max_attempts = 0\<close> the loop
  has no iteration, line 478 returns \<open>False\<close>, nothing is raised and no screenshot is
  requested, on a page where every attempt would fail without a banner.
\<close>

theorem C3_counterexample:
  "\<not> fst (attempt_body (click_locator (Str ''#cmdMakeAppt''))
         (expected_locator (Some ''Please select an appointment type'')) failing_attempt)
   \<and> \<not> banner_detected failing_attempt
   \<and> fst (safe_click (Str ''#cmdMakeAppt'') (Some ''Please select an appointment type'') 0
          (\<lambda>attempt. failing_attempt)) = Inr False
   \<and> snd (safe_click (Str ''#cmdMakeAppt'') (Some ''Please select an appointment type'') 0
          (\<lambda>attempt. failing_attempt)) = []"
  by (simp add: safe_click_def attempt_body_def failing_attempt_def banner_detected_def
      error_banner_def expected_locator_def)

theorem C8_expected_already_visible_witness:
  "safe_click (Str ''Fees'') (Some ''Select a Location'') 3 (\<lambda>attempt. visible_attempt)
     = (Inr True, [])"
  using C8_expected_already_visible [where max_attempts = 3 and tgt = "Str ''Fees''"
      and expected_text = "Some ''Select a Location''" and s = "''Select a Location''"
      and page = "\<lambda>attempt. visible_attempt"]
  by (simp add: visible_attempt_def)

section \<open>The calendar walk\<close>

lemma and_then_Inl [simp]: "and_then (Inl e, evs) f = (Inl e, evs)"
  by (simp add: and_then_def)

lemma and_then_Inr [simp]: "and_then (Inr a, evs) f = (fst (f a), evs @ snd (f a))"
  by (simp add: and_then_def split: prod.splits)

lemma and_then_events:
  "snd (and_then m f) = snd m @ (case fst m of Inl e \<Rightarrow> [] | Inr a \<Rightarrow> snd (f a))"
  by (cases m; cases "fst m") (auto simp: and_then_def split: prod.splits)

lemma and_then_result:
  "fst (and_then m f) = (case fst m of Inl e \<Rightarrow> Inl e | Inr a \<Rightarrow> fst (f a))"
  by (cases m; cases "fst m") (auto simp: and_then_def split: prod.splits)

lemma wait_for_spinner_events [simp]: "snd (wait_for_spinner obs) = []"
  by (simp add: wait_for_spinner_def split: option.splits exn.splits)


lemma safe_click_loop_events:
  "e \<in> set (snd (safe_click_loop clk ex m page is)) \<Longrightarrow> e = Clicked clk \<or> e = Screenshot"
proof (induction "is")
  case Nil
  then show ?case by simp
next
  case (Cons i "is")
  then show ?case
    using attempt_body_events[of clk ex "page i"]
    by (cases "attempt_body clk ex (page i)")
       (auto split: if_splits prod.splits bool.splits)
qed

lemma safe_click_events:
  "e \<in> set (snd (safe_click tgt ex m page)) \<Longrightarrow> e = Clicked (click_locator tgt) \<or> e = Screenshot"
  unfolding safe_click_def by (rule safe_click_loop_events)



lemma check_days_events:
  "e \<in> set (snd (check_days mt yt idx cells acc)) \<Longrightarrow> (\<exists>i. e = Clicked (ActiveDay i)) \<or> e = Screenshot"
proof (induction cells arbitrary: idx acc)
  case Nil
  then show ?case by simp
next
  case (Cons cell cells)
  show ?case
  proof (cases "day_number cell")
    case (Inl x)
    with Cons.prems show ?thesis by simp
  next
    case (Inr day)
    from Cons.prems Inr
    show ?thesis
      using safe_click_events[of e "Handle (ActiveDay idx)" None 3 "day_click cell"] Cons.IH
      by (auto simp: and_then_events Let_def split: sum.splits)
  qed
qed

lemma check_days_no_month [simp]:
  "count_list (snd (check_days mt yt idx cells acc)) MonthRead = 0"
  using check_days_events[of MonthRead] by (auto simp: count_list_0_iff)

lemma check_days_no_next [simp]:
  "count_list (snd (check_days mt yt idx cells acc)) (Clicked NextMonthButton) = 0"
  using check_days_events[of "Clicked NextMonthButton"] by (auto simp: count_list_0_iff)

lemma check_month_slots_months [simp]:
  "count_list (snd (check_month_slots cfg obs)) MonthRead = 1"
  by (simp add: check_month_slots_def Let_def split: prod.splits)

lemma check_month_slots_next [simp]:
  "count_list (snd (check_month_slots cfg obs)) (Clicked NextMonthButton) = 0"
  by (simp add: check_month_slots_def Let_def split: prod.splits)

lemma safe_click_no_month [simp]:
  "count_list (snd (safe_click tgt ex m page)) MonthRead = 0"
  using safe_click_events[of MonthRead] by (auto simp: count_list_0_iff)


lemma upt_3: "[0..<nat 3] = [0, 1, 2]" "[0..<3] = [0, 1, 2]"
  by (simp_all add: upt_conv_Cons)




lemma py_strip_examples [simp]:
  "py_strip ''June'' = ''June''" "py_strip ''July'' = ''July''" "py_strip ''2025'' = ''2025''"
  "py_strip ''-'' = ''-''" "py_strip ''9:00 AM'' = ''9:00 AM''"
  "py_strip '' 10:00 AM '' = ''10:00 AM''"
  "py_strip nbsp = []" "py_strip padded_time = ''10:00 AM''"
  by (simp_all add: py_strip_def is_space_def is_space2_def is_space3_def nbsp_def
      padded_time_def)

lemma cary_calendar_slots:
  "check_slots cfg cary_calendar =
     (Inr [(''June 1, 2025'', [''9:00 AM'', ''10:00 AM''])],
      [MonthRead, Clicked (ActiveDay 0), Clicked NextMonthButton, MonthRead])"
  by (simp add: check_slots_def check_month_slots_def cary_calendar_def june_month_def
      july_month_def june_first_def calm_spinner_def clicking_attempt_def wait_for_spinner_def
      safe_click_def upt_3 attempt_body_def expected_locator_def dict_update_def str_int_def
      str_nat.simps)


section \<open>Failures inside a location\<close>

lemma send_push_events:
  "e \<in> set (snd (send_push env js t b)) \<Longrightarrow> \<exists>aud. e = WebPush js t b aud"
  by (auto simp: send_push_def Let_def split: option.splits if_splits)

lemma send_to_all_events:
  "e \<in> set (snd (send_to_all env t b subs)) \<Longrightarrow> \<exists>js aud. e = WebPush js t b aud"
proof (induction subs)
  case Nil
  then show ?case by simp
next
  case (Cons sub subs)
  then show ?case
    using send_push_events[of e env "push_subscription sub" t b]
    by (auto split: prod.splits)
qed

lemma send_notification_events:
  "e \<in> set (snd (send_notification cfg env db cat loc ts)) \<Longrightarrow> \<exists>js t b aud. e = WebPush js t b aud"
  by (auto simp: send_notification_def Let_def split: option.splits if_splits
      dest!: send_to_all_events)

lemma check_month_slots_events:
  "e \<in> set (snd (check_month_slots cfg obs)) \<Longrightarrow>
     (\<exists>i. e = Clicked (ActiveDay i)) \<or> e = Screenshot \<or> e = MonthRead"
  using check_days_events[of e]
  by (auto simp: check_month_slots_def Let_def split: prod.splits option.splits)

lemma check_slots_events:
  "e \<in> set (snd (check_slots cfg obs)) \<Longrightarrow>
     (\<exists>l. e = Clicked l) \<or> e = Screenshot \<or> e = MonthRead"
  using check_month_slots_events[of e cfg "current_month obs"]
    check_month_slots_events[of e cfg "next_month obs"]
    safe_click_events[of e "Handle NextMonthButton" None 3 "next_click obs"]
  by (auto simp: check_slots_def and_then_events Let_def split: sum.splits if_splits)

lemma enter_location_events:
  assumes "e \<in> set (snd (enter_location cfg loc obs))"
  shows "(\<exists>l. e = Clicked l) \<or> e = Screenshot \<or> e = MonthRead"
proof -
  let ?m = "and_then
      (safe_click (Handle (LocationPanel loc)) (Some (calendar_page_text cfg)) 3 (enter_click obs))
      (\<lambda>_. check_slots cfg (calendar obs))"
  have m: "e \<in> set (snd ?m) \<Longrightarrow> (\<exists>l. e = Clicked l) \<or> e = Screenshot \<or> e = MonthRead"
    using check_slots_events[of e cfg "calendar obs"]
      safe_click_events[of e "Handle (LocationPanel loc)" "Some (calendar_page_text cfg)" 3
        "enter_click obs"]
    by (auto simp: and_then_events split: sum.splits)
  have "set (snd (enter_location cfg loc obs)) \<subseteq> set (snd ?m) \<union> {Screenshot}"
    by (cases ?m) (auto simp: enter_location_def take_screenshot_def split: sum.splits exn.splits)
  with m assms show ?thesis by auto
qed

lemma go_back_events [simp]: "snd (go_back obs) = [WentBack]"
  by (simp add: go_back_def split: option.splits exn.splits)

lemma enter_location_no_back [simp]:
  "count_list (snd (enter_location cfg loc obs)) WentBack = 0"
  using enter_location_events[of WentBack] by (auto simp: count_list_0_iff)

lemma send_notification_no_back [simp]:
  "count_list (snd (send_notification cfg env db cat loc ts)) WentBack = 0"
  using send_notification_events[of WentBack] by (auto simp: count_list_0_iff)

lemma visit_location_events:
  "snd (visit_location cfg env db cat loc obs sd) =
     snd (enter_location cfg loc obs) @
     snd (send_notification cfg env db cat loc (fst (enter_location cfg loc obs))) @ [WentBack]"
  by (simp add: visit_location_def Let_def and_then_events case_prod_beta split: sum.splits)

lemma visit_location_result:
  "fst (visit_location cfg env db cat loc obs sd) =
     (case fst (go_back (back_raises obs)) of
        Inl e \<Rightarrow> Inl e
      | Inr u \<Rightarrow> Inr (sd @ [\<lparr>location = loc,
                              slots = count_slots (fst (enter_location cfg loc obs))\<rparr>]))"
  by (simp add: visit_location_def Let_def and_then_result case_prod_beta split: sum.splits)

lemma enter_location_error:
  "fst (and_then
          (safe_click (Handle (LocationPanel loc)) (Some (calendar_page_text cfg)) 3 (enter_click obs))
          (\<lambda>_. check_slots cfg (calendar obs))) = Inl e \<Longrightarrow>
   fst (enter_location cfg loc obs) = []"
  by (cases "and_then
          (safe_click (Handle (LocationPanel loc)) (Some (calendar_page_text cfg)) 3 (enter_click obs))
          (\<lambda>_. check_slots cfg (calendar obs))")
     (auto simp: enter_location_def split: exn.splits)

lemma go_back_None [simp]: "fst (go_back None) = Inr ()"
  by (simp add: go_back_def)










lemma open_panel_enter:
  "enter_click obs = (\<lambda>attempt. clicking_attempt) \<Longrightarrow> calendar obs = cary_calendar \<Longrightarrow>
   enter_location cfg loc obs =
     ([(''June 1, 2025'', [''9:00 AM'', ''10:00 AM''])],
      [Clicked (LocationPanel loc), MonthRead, Clicked (ActiveDay 0),
       Clicked NextMonthButton, MonthRead])"
  by (simp add: enter_location_def cary_calendar_slots safe_click_def upt_3
      attempt_body_def expected_locator_def clicking_attempt_def)

lemma cary_enter:
  "enter_location cfg ''Cary'' cary_panel =
     ([(''June 1, 2025'', [''9:00 AM'', ''10:00 AM''])],
      [Clicked (LocationPanel ''Cary''), MonthRead, Clicked (ActiveDay 0),
       Clicked NextMonthButton, MonthRead])"
  by (rule open_panel_enter) (simp_all add: cary_panel_def)

lemma broken_enter_raises:
  "fst (and_then
          (safe_click (Handle (LocationPanel ''Durham East'')) (Some (calendar_page_text cfg)) 3
             (enter_click broken_panel))
          (\<lambda>_. check_slots cfg (calendar broken_panel))) = Inl ServerErrorException"
  by (simp add: broken_panel_def safe_click_def upt_3 attempt_body_def expected_locator_def
      error_page_attempt_def banner_detected_def error_banner_def)


lemma fees_page_simps [simp]:
  "fees_page 0 = cary_panel" "fees_page (Suc 0) = broken_panel"
  "panel_count cary_panel ''Cary'' = 1" "panel_count broken_panel ''Durham East'' = 1"
  "back_raises cary_panel = None" "back_raises broken_panel = None"
  "locations two_locations = [''Cary'', ''Durham East'']"
  by (simp_all add: fees_page_def cary_panel_def broken_panel_def two_locations_def
      panel_count_def contains_text_def)

lemma failing_first_simps [simp]:
  "failing_first_page 0 = broken_panel" "failing_first_page (Suc 0) = cary_panel"
  "stuck_page 0 = stuck_panel" "stuck_page (Suc 0) = cary_panel"
  "panel_count stuck_panel ''Durham East'' = 1"
  "back_raises stuck_panel = Some PlaywrightTimeoutError"
  "enter_click stuck_panel = enter_click broken_panel"
  "calendar stuck_panel = calendar broken_panel"
  "locations failing_first = [''Durham East'', ''Cary'']"
  by (simp_all add: failing_first_page_def stuck_page_def stuck_panel_def failing_first_def
      broken_panel_def panel_count_def contains_text_def)

lemma cary_visit:
  "fst (visit_location cfg env db cat ''Cary'' cary_panel sd) =
     Inr (sd @ [\<lparr>location = ''Cary'', slots = 2\<rparr>])"
  by (simp add: visit_location_result cary_enter count_slots_def)

lemma broken_visit:
  "fst (visit_location cfg env db cat ''Durham East'' broken_panel sd) =
     Inr (sd @ [\<lparr>location = ''Durham East'', slots = 0\<rparr>])"
  using enter_location_error[OF broken_enter_raises, of cfg]
  by (simp add: visit_location_result count_slots_def)

lemma fees_scan_result:
  "fst (locations_loop two_locations env db ''Fees'' fees_page 0 (locations two_locations) {} []) =
     Inr [\<lparr>location = ''Cary'', slots = 2\<rparr>, \<lparr>location = ''Durham East'', slots = 0\<rparr>]"
  by (simp add: and_then_result cary_visit broken_visit)





section \<open>The snapshot write\<close>

lemma upsert_keys:
  "map row_key (upsert_last_check c l n ts tbl) =
     (if (c, l) \<in> set (map row_key tbl) then map row_key tbl else map row_key tbl @ [(c, l)])"
  by (auto simp: upsert_last_check_def)

lemma upsert_distinct:
  "distinct (map row_key tbl) \<Longrightarrow> distinct (map row_key (upsert_last_check c l n ts tbl))"
  by (simp only: upsert_keys) auto

lemma upsert_ids:
  "(c, l) \<in> set (map row_key tbl) \<Longrightarrow>
   map (\<lambda>r. (row_id r, row_key r)) (upsert_last_check c l n ts tbl) = map (\<lambda>r. (row_id r, row_key r)) tbl"
  by (auto simp: upsert_last_check_def)

lemma slots_of_map_update:
  "map_of (map (\<lambda>r. (row_key r, has_slots r))
      (map (\<lambda>r. if category r = c \<and> location_name r = l
                 then r\<lparr>has_slots := n, last_checked := ts\<rparr> else r) tbl)) =
   (if (c, l) \<in> set (map row_key tbl)
    then (map_of (map (\<lambda>r. (row_key r, has_slots r)) tbl))((c, l) \<mapsto> n)
    else map_of (map (\<lambda>r. (row_key r, has_slots r)) tbl))"
  by (induction tbl) (auto simp: fun_eq_iff)

lemma upsert_slots_of:
  "slots_of (upsert_last_check c l n ts tbl) = (slots_of tbl)((c, l) \<mapsto> n)"
proof (cases "(c, l) \<in> set (map row_key tbl)")
  case True
  then show ?thesis
    unfolding slots_of_def upsert_last_check_def
    by (simp only: if_True slots_of_map_update)
next
  case False
  then have "(c, l) \<notin> dom (slots_of tbl)"
    by (auto simp: slots_of_def dom_map_of_conv_image_fst image_iff)
  with False show ?thesis
    unfolding slots_of_def upsert_last_check_def
    by (auto simp: fun_eq_iff map_add_def split: option.splits)
qed

lemma save_as_writes:
  "db_save_slots_info c locs sd ts tbl = apply_writes ts tbl (writes c locs sd)"
  by (simp add: db_save_slots_info_def apply_writes_def writes_def foldl_map)

lemma apply_writes_Nil [simp]: "apply_writes ts tbl [] = tbl"
  by (simp add: apply_writes_def)

lemma apply_writes_Cons [simp]:
  "apply_writes ts tbl (kv # kvs) =
     apply_writes ts (upsert_last_check (fst (fst kv)) (snd (fst kv)) (snd kv) ts tbl) kvs"
  by (simp add: apply_writes_def)

lemma apply_writes_distinct:
  "distinct (map row_key tbl) \<Longrightarrow> distinct (map row_key (apply_writes ts tbl kvs))"
  by (induction kvs arbitrary: tbl) (auto intro: upsert_distinct)

lemma apply_writes_slots_of:
  "slots_of (apply_writes ts tbl kvs) = slots_of tbl ++ map_of (rev kvs)"
proof (induction kvs arbitrary: tbl)
  case Nil
  then show ?case by simp
next
  case (Cons kv kvs)
  obtain c l n where kv: "kv = ((c, l), n)" by (cases kv) auto
  show ?case
    by (simp add: Cons kv upsert_slots_of fun_eq_iff map_add_def split: option.splits)
qed

lemma apply_writes_keys:
  "set (map row_key (apply_writes ts tbl kvs)) = set (map row_key tbl) \<union> set (map fst kvs)"
proof (induction kvs arbitrary: tbl)
  case Nil
  then show ?case by simp
next
  case (Cons kv kvs)
  have "set (map row_key (upsert_last_check (fst (fst kv)) (snd (fst kv)) (snd kv) ts tbl)) =
      insert (fst kv) (set (map row_key tbl))"
    by (simp only: upsert_keys) auto
  with Cons show ?case by auto
qed

lemma apply_writes_ids:
  "set (map fst kvs) \<subseteq> set (map row_key tbl) \<Longrightarrow>
   map (\<lambda>r. (row_id r, row_key r)) (apply_writes ts tbl kvs) = map (\<lambda>r. (row_id r, row_key r)) tbl"
proof (induction kvs arbitrary: tbl)
  case Nil
  then show ?case by simp
next
  case (Cons kv kvs)
  have in_tbl: "(fst (fst kv), snd (fst kv)) \<in> set (map row_key tbl)" using Cons.prems by auto
  have ids: "map (\<lambda>r. (row_id r, row_key r))
        (upsert_last_check (fst (fst kv)) (snd (fst kv)) (snd kv) ts tbl) =
      map (\<lambda>r. (row_id r, row_key r)) tbl"
    by (rule upsert_ids[OF in_tbl])
  have keys: "map row_key (upsert_last_check (fst (fst kv)) (snd (fst kv)) (snd kv) ts tbl) =
      map row_key tbl"
    using in_tbl by (simp only: upsert_keys if_True)
  have "set (map fst kvs) \<subseteq>
      set (map row_key (upsert_last_check (fst (fst kv)) (snd (fst kv)) (snd kv) ts tbl))"
    using Cons.prems unfolding keys by auto
  from Cons.IH[OF this] ids show ?case by simp
qed




lemma slots_of_row:
  "distinct (map row_key tbl) \<Longrightarrow> r \<in> set tbl \<Longrightarrow> slots_of tbl (row_key r) = Some (has_slots r)"
  unfolding slots_of_def
  by (rule map_of_is_SomeI) (auto simp: comp_def)








lemma fees_scan_completes:
  "fst (check_locations two_locations env ''Fees'' fees_page ts db) = Inr ()"
  using fees_scan_result[of env db]
  by (cases "locations_loop two_locations env db ''Fees'' fees_page 0 (locations two_locations) {} []")
     (auto simp: check_locations_def)


text \<open>
  The claim as first stated gives zero to every location absent from the page. The locator
  takes a panel whose text contains the name, so on a page whose only active panel is the
  one of Hendersonville the location Henderson, which has no panel there, is entered
  through that panel and stored with its two times.
\<close>

lemma hendersonville_simps [simp]:
  "locations two_hendersons = [''Henderson'', ''Hendersonville'']"
  "active_panels (hendersonville_page idx) = [''Hendersonville'']"
  "panel_count (hendersonville_page idx) ''Henderson'' = 1"
  "panel_count (hendersonville_page idx) ''Hendersonville'' = 1"
  "back_raises (hendersonville_page idx) = None"
  by (simp_all add: two_hendersons_def hendersonville_page_def hendersonville_panel_def
      panel_count_def contains_text_def)




section \<open>Two scans of unchanged slots\<close>

lemma send_notification_subscriptions:
  "subscriptions db = subscriptions db' \<Longrightarrow>
   send_notification cfg env db cat loc ts = send_notification cfg env db' cat loc ts"
  by (simp add: send_notification_def load_subscriptions_def)

lemma visit_location_subscriptions:
  "subscriptions db = subscriptions db' \<Longrightarrow>
   visit_location cfg env db cat loc obs sd = visit_location cfg env db' cat loc obs sd"
  by (simp add: visit_location_def send_notification_subscriptions[of db db'])

lemma locations_loop_subscriptions:
  assumes "subscriptions db = subscriptions db'"
  shows "locations_loop cfg env db cat page idx locs visited sd =
         locations_loop cfg env db' cat page idx locs visited sd"
proof (induction locs arbitrary: idx visited sd)
  case Nil
  then show ?case by simp
next
  case (Cons loc rest)
  have k: "locations_loop cfg env db cat page (Suc idx) rest (insert loc visited) =
           locations_loop cfg env db' cat page (Suc idx) rest (insert loc visited)"
    by (rule ext) (rule Cons.IH)
  show ?case
    by (simp add: visit_location_subscriptions[OF assms] Cons.IH k)
qed

lemma save_slots_info_subscriptions [simp]:
  "subscriptions (save_slots_info cfg cat sd ts db) = subscriptions db"
  by (simp add: save_slots_info_def Let_def)

lemma table_counts_eq:
  assumes d: "distinct (map row_key A)"
    and ids: "map (\<lambda>r. (row_id r, row_key r)) A = map (\<lambda>r. (row_id r, row_key r)) B"
    and s: "slots_of A = slots_of B"
  shows "row_counts A = row_counts B"
proof -
  have "length (map (\<lambda>r. (row_id r, row_key r)) A) = length (map (\<lambda>r. (row_id r, row_key r)) B)"
    by (simp only: ids)
  then have len: "length A = length B" by (simp only: length_map)
  have nth: "row_id (A ! i) = row_id (B ! i) \<and> row_key (A ! i) = row_key (B ! i)"
    if i: "i < length A" for i
  proof -
    have iB: "i < length B" using i len by simp
    have "map (\<lambda>r. (row_id r, row_key r)) A ! i = map (\<lambda>r. (row_id r, row_key r)) B ! i"
      by (simp only: ids)
    then have "(row_id (A ! i), row_key (A ! i)) = (row_id (B ! i), row_key (B ! i))"
      using i iB by (simp only: nth_map)
    then show ?thesis by (simp only: prod.inject)
  qed
  have keys: "map row_key A = map row_key B"
    using len nth by (simp add: list_eq_iff_nth_eq)
  have dB: "distinct (map row_key B)" using d by (simp only: keys)
  have "row_counts A ! i = row_counts B ! i" if i: "i < length A" for i
  proof -
    have iB: "i < length B" using i len by simp
    have a: "A ! i \<in> set A" using i by simp
    have b: "B ! i \<in> set B" using iB by simp
    have "slots_of A (row_key (A ! i)) = Some (has_slots (A ! i))"
      by (rule slots_of_row[OF d a])
    moreover have "slots_of B (row_key (B ! i)) = Some (has_slots (B ! i))"
      by (rule slots_of_row[OF dB b])
    ultimately have "has_slots (A ! i) = has_slots (B ! i)" using s nth[OF i] by simp
    with nth[OF i] show ?thesis using i iB by (simp add: row_counts_def)
  qed
  with len show ?thesis by (simp add: list_eq_iff_nth_eq row_counts_def)
qed

lemma apply_writes_twice:
  assumes d: "distinct (map row_key tbl)"
  shows "row_counts (apply_writes t2 (apply_writes t1 tbl kvs) kvs) =
         row_counts (apply_writes t1 tbl kvs)"
proof -
  let ?T1 = "apply_writes t1 tbl kvs"
  let ?T2 = "apply_writes t2 ?T1 kvs"
  have d1: "distinct (map row_key ?T1)" by (rule apply_writes_distinct[OF d])
  have d2: "distinct (map row_key ?T2)" by (rule apply_writes_distinct[OF d1])
  have sub: "set (map fst kvs) \<subseteq> set (map row_key ?T1)"
    by (simp only: apply_writes_keys) simp
  have ids: "map (\<lambda>r. (row_id r, row_key r)) ?T2 = map (\<lambda>r. (row_id r, row_key r)) ?T1"
    by (rule apply_writes_ids[OF sub])
  have s: "slots_of ?T2 = slots_of ?T1"
    by (simp add: apply_writes_slots_of fun_eq_iff map_add_def split: option.splits)
  show ?thesis by (rule table_counts_eq[OF d2 ids s])
qed

lemma save_twice:
  "distinct (map row_key (last_check db)) \<Longrightarrow>
   row_counts (last_check (save_slots_info cfg cat sd t2 (save_slots_info cfg cat sd t1 db))) =
   row_counts (last_check (save_slots_info cfg cat sd t1 db))"
  by (simp add: save_slots_info_def Let_def save_as_writes apply_writes_twice)

text \<open>
  Claim C2, amended. Let a scan of a category run to its end, and let the next scan of the
  same category observe the same page. Then the second scan runs to its end as well and
  causes the same events as the first, so every push message of the first scan is sent
  again to the same subscriber: nothing in the program remembers a notification. Its
  snapshot write leaves every row with the identifier, the category, the location and the
  count it had after the first scan; only the timestamps are new.
\<close>

theorem C2_repeated_scan:
  assumes "distinct (map (\<lambda>r. (category r, location_name r)) (last_check db))"
    and "check_locations cfg env cat page t1 db = (Inr (), evs, db1)"
  shows "fst (check_locations cfg env cat page t2 db1) = Inr ()
     \<and> fst (snd (check_locations cfg env cat page t2 db1)) = evs
     \<and> row_counts (last_check (snd (snd (check_locations cfg env cat page t2 db1)))) =
         row_counts (last_check db1)"
proof -
  from assms(2) obtain sd where
    l: "locations_loop cfg env db cat page 0 (locations cfg) {} [] = (Inr sd, evs)" and
    db1: "db1 = save_slots_info cfg cat sd t1 db"
    by (cases "locations_loop cfg env db cat page 0 (locations cfg) {} []")
       (auto simp: check_locations_def split: sum.splits)
  have "subscriptions db1 = subscriptions db" by (simp add: db1)
  then have l1: "locations_loop cfg env db1 cat page 0 (locations cfg) {} [] = (Inr sd, evs)"
    using locations_loop_subscriptions[of db1 db] l by simp
  then have c: "check_locations cfg env cat page t2 db1 =
      (Inr (), evs, save_slots_info cfg cat sd t2 db1)"
    by (simp add: check_locations_def)
  show ?thesis
    unfolding c using save_twice[OF assms(1)] by (simp add: db1)
qed

lemma cary_push:
  "subscriptions db = [no_descriptor_subscription, cary_fees_subscription] \<Longrightarrow>
   send_notification two_locations example_push_env db ''Fees'' ''Cary''
       [(''June 1, 2025'', [''9:00 AM'', ''10:00 AM''])] =
     (1, [WebPush ''sub-fcm'' notification_title
            (notification_body ''Fees'' ''Cary'' [(''June 1, 2025'', [''9:00 AM'', ''10:00 AM''])])
            ''https://fcm.googleapis.com''])"
  by (simp add: send_notification_def load_subscriptions_def two_locations_def cfg_fees
      interested_filter no_descriptor_subscription_def cary_fees_subscription_def
      send_push_def example_push_env_def send_push_aud_def)

lemma fees_scan_pushes:
  "subscriptions db = [no_descriptor_subscription, cary_fees_subscription] \<Longrightarrow>
   WebPush ''sub-fcm'' notification_title
     (notification_body ''Fees'' ''Cary'' [(''June 1, 2025'', [''9:00 AM'', ''10:00 AM''])])
     ''https://fcm.googleapis.com''
   \<in> set (fst (snd (check_locations two_locations example_push_env ''Fees'' fees_page ts db)))"
proof -
  assume a: "subscriptions db = [no_descriptor_subscription, cary_fees_subscription]"
  let ?l = "locations_loop two_locations example_push_env db ''Fees'' fees_page 0
      (locations two_locations) {} []"
  have "WebPush ''sub-fcm'' notification_title
     (notification_body ''Fees'' ''Cary'' [(''June 1, 2025'', [''9:00 AM'', ''10:00 AM''])])
     ''https://fcm.googleapis.com'' \<in> set (snd ?l)"
    by (simp add: and_then_events visit_location_events cary_enter cary_push[OF a] cary_visit)
  then show ?thesis
    by (cases ?l) (auto simp: check_locations_def split: sum.splits)
qed

text \<open>
  The claim as first stated also forbids a second notification for unchanged slots. Two
  scans of Fees over the same page both push to the subscriber of Cary, with the same
  title, body and audience.
\<close>

theorem C2_counterexample:
  "push_subscription cary_fees_subscription = ''sub-fcm''
   \<and> WebPush ''sub-fcm'' notification_title
       (notification_body ''Fees'' ''Cary'' [(''June 1, 2025'', [''9:00 AM'', ''10:00 AM''])])
       ''https://fcm.googleapis.com''
     \<in> set (fst (snd (check_locations two_locations example_push_env ''Fees'' fees_page
                         ''2025-06-01T10:00:00'' example_db)))
   \<and> WebPush ''sub-fcm'' notification_title
       (notification_body ''Fees'' ''Cary'' [(''June 1, 2025'', [''9:00 AM'', ''10:00 AM''])])
       ''https://fcm.googleapis.com''
     \<in> set (fst (snd (check_locations two_locations example_push_env ''Fees'' fees_page
                         ''2025-06-01T10:05:00''
                         (snd (snd (check_locations two_locations example_push_env ''Fees''
                                      fees_page ''2025-06-01T10:00:00'' example_db))))))"
proof -
  let ?db1 = "snd (snd (check_locations two_locations example_push_env ''Fees''
                                      fees_page ''2025-06-01T10:00:00'' example_db))"
  have s0: "subscriptions example_db = [no_descriptor_subscription, cary_fees_subscription]"
    by (simp add: example_db_def)
  have "subscriptions ?db1 = subscriptions example_db"
    by (cases "locations_loop two_locations example_push_env example_db ''Fees'' fees_page 0
          (locations two_locations) {} []")
       (auto simp: check_locations_def split: sum.splits)
  then have s1: "subscriptions ?db1 = [no_descriptor_subscription, cary_fees_subscription]"
    using s0 by simp
  show ?thesis
    using fees_scan_pushes[OF s0] fees_scan_pushes[OF s1]
    by (simp add: cary_fees_subscription_def)
qed

theorem C2_repeated_scan_witness:
  "fst (check_locations two_locations example_push_env ''Fees'' fees_page ''2025-06-01T10:05:00''
          (snd (snd (check_locations two_locations example_push_env ''Fees'' fees_page
                       ''2025-06-01T10:00:00'' example_db)))) = Inr ()
   \<and> fst (snd (check_locations two_locations example_push_env ''Fees'' fees_page
          ''2025-06-01T10:05:00''
          (snd (snd (check_locations two_locations example_push_env ''Fees'' fees_page
                       ''2025-06-01T10:00:00'' example_db)))))
     = fst (snd (check_locations two_locations example_push_env ''Fees'' fees_page
                   ''2025-06-01T10:00:00'' example_db))
   \<and> row_counts (last_check (snd (snd (check_locations two_locations example_push_env ''Fees''
          fees_page ''2025-06-01T10:05:00''
          (snd (snd (check_locations two_locations example_push_env ''Fees'' fees_page
                       ''2025-06-01T10:00:00'' example_db)))))))
     = row_counts (last_check (snd (snd (check_locations two_locations example_push_env ''Fees''
          fees_page ''2025-06-01T10:00:00'' example_db))))"
proof -
  let ?run = "check_locations two_locations example_push_env ''Fees'' fees_page
             ''2025-06-01T10:00:00'' example_db"
  have d: "distinct (map (\<lambda>r. (category r, location_name r)) (last_check example_db))"
    by (simp add: example_db_def)
  have run: "?run = (Inr (), fst (snd ?run), snd (snd ?run))"
    using fees_scan_completes[of example_push_env "''2025-06-01T10:00:00''" example_db]
    by (cases ?run) auto
  show ?thesis
    by (rule C2_repeated_scan[OF d run])
qed

section \<open>The purge\<close>

lemma digit_char_less: "a < 10 \<Longrightarrow> b < 10 \<Longrightarrow> digit_char a < digit_char b \<longleftrightarrow> a < b"
  by (simp add: digit_char_def less_char_def)

lemma digit_char_eq: "a < 10 \<Longrightarrow> b < 10 \<Longrightarrow> digit_char a = digit_char b \<longleftrightarrow> a = b"
  using digit_char_less[of a b] digit_char_less[of b a] by (auto simp: not_less_iff_gr_or_eq)

lemma div_mod_less:
  "(a::nat) < b \<longleftrightarrow> a div 10 < b div 10 \<or> a div 10 = b div 10 \<and> a mod 10 < b mod 10"
proof -
  have a: "a = 10 * (a div 10) + a mod 10" and b: "b = 10 * (b div 10) + b mod 10" by simp_all
  have ma: "a mod 10 < 10" and mb: "b mod 10 < 10" by simp_all
  define x r y q where "x = a div 10" and "r = a mod 10" and "y = b div 10" and "q = b mod 10"
  have "a = 10 * x + r" "b = 10 * y + q" "r < 10" "q < 10"
    using a b ma mb by (simp_all add: x_def r_def y_def q_def)
  then have "a < b \<longleftrightarrow> x < y \<or> x = y \<and> r < q" by auto
  then show ?thesis by (simp add: x_def r_def y_def q_def)
qed

lemma div_mod_eq: "(a::nat) = b \<longleftrightarrow> a div 10 = b div 10 \<and> a mod 10 = b mod 10"
  by (metis div_mult_mod_eq)

lemma zero_padded_less:
  "a < 10 ^ w \<Longrightarrow> b < 10 ^ w \<Longrightarrow>
   zero_padded w a @ xs < zero_padded w b @ ys \<longleftrightarrow> a < b \<or> a = b \<and> xs < ys"
proof (induction w arbitrary: a b xs ys)
  case 0
  then show ?case by simp
next
  case (Suc w)
  have a: "a div 10 < 10 ^ w" and b: "b div 10 < 10 ^ w"
    using Suc.prems by (simp_all add: less_mult_imp_div_less mult.commute)
  have "zero_padded (Suc w) a @ xs < zero_padded (Suc w) b @ ys \<longleftrightarrow>
      a div 10 < b div 10 \<or>
      a div 10 = b div 10 \<and> digit_char (a mod 10) # xs < digit_char (b mod 10) # ys"
    using Suc.IH[OF a b, of "digit_char (a mod 10) # xs" "digit_char (b mod 10) # ys"] by simp
  also have "\<dots> \<longleftrightarrow> a div 10 < b div 10 \<or>
      a div 10 = b div 10 \<and>
        (a mod 10 < b mod 10 \<or> a mod 10 = b mod 10 \<and> xs < ys)"
    by (simp add: digit_char_less digit_char_eq)
  also have "\<dots> \<longleftrightarrow> a < b \<or> a = b \<and> xs < ys"
    using div_mod_less[of a b] div_mod_eq[of a b] by blast
  finally show ?case .
qed

lemma fraction_less:
  "a < 10 ^ 6 \<Longrightarrow> b < 10 ^ 6 \<Longrightarrow>
   (if a = 0 then [] else ''.'' @ zero_padded 6 a) < (if b = 0 then [] else ''.'' @ zero_padded 6 b)
     \<longleftrightarrow> a < b"
  using zero_padded_less[of a 6 b "[]" "[]"] by auto

lemma isoformat_less:
  assumes "valid_datetime a" and "valid_datetime b"
  shows "isoformat a < isoformat b \<longleftrightarrow> datetime_fields a < datetime_fields b"
proof -
  have y: "year a < 10 ^ 4" "year b < 10 ^ 4"
    and m: "month a < 10 ^ 2" "month b < 10 ^ 2"
    and d: "day a < 10 ^ 2" "day b < 10 ^ 2"
    and h: "hour a < 10 ^ 2" "hour b < 10 ^ 2"
    and mi: "minute a < 10 ^ 2" "minute b < 10 ^ 2"
    and s: "second a < 10 ^ 2" "second b < 10 ^ 2"
    and u: "microsecond a < 10 ^ 6" "microsecond b < 10 ^ 6"
    using assms by (simp_all add: valid_datetime_def)
  let ?fa = "if microsecond a = 0 then [] else ''.'' @ zero_padded 6 (microsecond a)"
  let ?fb = "if microsecond b = 0 then [] else ''.'' @ zero_padded 6 (microsecond b)"
  have f: "?fa < ?fb \<longleftrightarrow> microsecond a < microsecond b"
    by (rule fraction_less[OF u])
  have "isoformat a < isoformat b \<longleftrightarrow>
     year a < year b \<or> year a = year b \<and>
     (month a < month b \<or> month a = month b \<and>
     (day a < day b \<or> day a = day b \<and>
     (hour a < hour b \<or> hour a = hour b \<and>
     (minute a < minute b \<or> minute a = minute b \<and>
     (second a < second b \<or> second a = second b \<and> ?fa < ?fb)))))"
    unfolding isoformat_def
    by (simp only: append_Cons append_Nil zero_padded_less[OF y] zero_padded_less[OF m]
        zero_padded_less[OF d] zero_padded_less[OF h] zero_padded_less[OF mi]
        zero_padded_less[OF s] Cons_less_Cons order_less_irrefl simp_thms)
  then show ?thesis
    unfolding f by (simp add: datetime_fields_def)
qed

text \<open>
  Claim C9. A subscription whose \<open>created_at\<close> is the ISO text of a datetime is removed by
  the purge exactly when that datetime is strictly earlier than the cutoff, the purge time
  minus \<open>max_subscription_age_hours\<close>; one created at the cutoff or later, be it by a
  second or a microsecond, is kept.
\<close>

theorem C9_purge:
  assumes "valid_datetime created"
    and "valid_datetime (minus_hours now (max_subscription_age_hours cfg))"
    and "sub \<in> set (subscriptions db)"
    and "created_at sub = isoformat created"
  shows "sub \<notin> set (subscriptions (snd (remove_old_subscriptions cfg minus_hours now db))) \<longleftrightarrow>
         datetime_fields created < datetime_fields (minus_hours now (max_subscription_age_hours cfg))"
  using assms(3,4) isoformat_less[OF assms(1,2)]
  by (simp add: remove_old_subscriptions_def db_remove_old_subscriptions_def Let_def)

lemma cfg_hours: "max_subscription_age_hours Config = 72"
  by (simp add: Config_def)

lemma purge_cutoff:
  "same_month_minus_hours purge_time (max_subscription_age_hours Config) =
     \<lparr>year = 2025, month = 6, day = 1, hour = 10, minute = 0, second = 0, microsecond = 500000\<rparr>"
  by (simp add: same_month_minus_hours_def purge_time_def cfg_hours)

lemma zero_padded_numerals:
  "zero_padded 2 n = [digit_char (n div 10 mod 10), digit_char (n mod 10)]"
  "zero_padded 4 n = [digit_char (n div 10 div 10 div 10 mod 10), digit_char (n div 10 div 10 mod 10),
     digit_char (n div 10 mod 10), digit_char (n mod 10)]"
  "zero_padded 6 n = [digit_char (n div 10 div 10 div 10 div 10 div 10 mod 10),
     digit_char (n div 10 div 10 div 10 div 10 mod 10),
     digit_char (n div 10 div 10 div 10 mod 10), digit_char (n div 10 div 10 mod 10),
     digit_char (n div 10 mod 10), digit_char (n mod 10)]"
proof -
  have n2: "(2::nat) = Suc (Suc 0)" and n4: "(4::nat) = Suc (Suc (Suc (Suc 0)))"
    and n6: "(6::nat) = Suc (Suc (Suc (Suc (Suc (Suc 0)))))" by simp_all
  show "zero_padded 2 n = [digit_char (n div 10 mod 10), digit_char (n mod 10)]"
    by (subst n2) simp
  show "zero_padded 4 n = [digit_char (n div 10 div 10 div 10 mod 10), digit_char (n div 10 div 10 mod 10),
     digit_char (n div 10 mod 10), digit_char (n mod 10)]"
    by (subst n4) simp
  show "zero_padded 6 n = [digit_char (n div 10 div 10 div 10 div 10 div 10 mod 10),
     digit_char (n div 10 div 10 div 10 div 10 mod 10),
     digit_char (n div 10 div 10 div 10 mod 10), digit_char (n div 10 div 10 mod 10),
     digit_char (n div 10 mod 10), digit_char (n mod 10)]"
    by (subst n6) simp
qed

lemma iso_examples:
  "isoformat \<lparr>year = 2025, month = 6, day = 1, hour = 10, minute = 0, second = 0, microsecond = 0\<rparr>
     = ''2025-06-01T10:00:00''"
  "isoformat \<lparr>year = 2025, month = 6, day = 1, hour = 10, minute = 0, second = 0,
      microsecond = 500000\<rparr> = ''2025-06-01T10:00:00.500000''"
  "isoformat \<lparr>year = 2025, month = 6, day = 1, hour = 10, minute = 0, second = 1,
      microsecond = 500000\<rparr> = ''2025-06-01T10:00:01.500000''"
  by (simp_all add: isoformat_def zero_padded_numerals)

theorem C9_purge_witness:
  "subscription_created ''old'' ''2025-06-01T10:00:00'' \<notin> set (subscriptions (snd
       (remove_old_subscriptions Config same_month_minus_hours purge_time purge_db)))
   \<and> subscription_created ''boundary'' ''2025-06-01T10:00:00.500000'' \<in> set (subscriptions (snd
       (remove_old_subscriptions Config same_month_minus_hours purge_time purge_db)))
   \<and> subscription_created ''young'' ''2025-06-01T10:00:01.500000'' \<in> set (subscriptions (snd
       (remove_old_subscriptions Config same_month_minus_hours purge_time purge_db)))"
proof -
  let ?old = "\<lparr>year = 2025, month = 6, day = 1, hour = 10, minute = 0, second = 0,
      microsecond = 0\<rparr>"
  let ?cut = "\<lparr>year = 2025, month = 6, day = 1, hour = 10, minute = 0, second = 0,
      microsecond = 500000\<rparr>"
  let ?young = "\<lparr>year = 2025, month = 6, day = 1, hour = 10, minute = 0, second = 1,
      microsecond = 500000\<rparr>"
  have v: "valid_datetime ?old" "valid_datetime ?cut" "valid_datetime ?young"
    by (simp_all add: valid_datetime_def)
  have vc: "valid_datetime (same_month_minus_hours purge_time (max_subscription_age_hours Config))"
    unfolding purge_cutoff by (rule v(2))
  have m: "subscription_created ''old'' ''2025-06-01T10:00:00'' \<in> set (subscriptions purge_db)"
    "subscription_created ''boundary'' ''2025-06-01T10:00:00.500000'' \<in> set (subscriptions purge_db)"
    "subscription_created ''young'' ''2025-06-01T10:00:01.500000'' \<in> set (subscriptions purge_db)"
    by (simp_all add: purge_db_def)
  have c: "created_at (subscription_created ''old'' ''2025-06-01T10:00:00'') = isoformat ?old"
    "created_at (subscription_created ''boundary'' ''2025-06-01T10:00:00.500000'') = isoformat ?cut"
    "created_at (subscription_created ''young'' ''2025-06-01T10:00:01.500000'') = isoformat ?young"
    unfolding iso_examples subscription_created_def by simp_all
  have o: "datetime_fields ?old < datetime_fields ?cut"
    "\<not> datetime_fields ?cut < datetime_fields ?cut"
    "\<not> datetime_fields ?young < datetime_fields ?cut"
    by (simp_all add: datetime_fields_def)
  note t = C9_purge [where minus_hours = same_month_minus_hours and now = purge_time
      and cfg = Config and db = purge_db]
  from t[OF v(1) vc m(1) c(1)] t[OF v(2) vc m(2) c(2)] t[OF v(3) vc m(3) c(3)] o
  show ?thesis unfolding purge_cutoff by blast
qed

end
